theory Spec2Isabelle
  imports Complex_Main "HOL-Library.Word"
begin

unbundle bit_operations_syntax

section \<open>JavaScript strings and numbers\<close>

text \<open>
  A JavaScript string is a sequence of UTF-16 code units. The model uses \<^typ>\<open>string\<close>,
  whose characters are the code units below 256 (ASCII and Latin-1, where a code unit is
  its own code point); names and colours with code units above 255 are outside the model.
  A JavaScript number is modelled as an exact \<^typ>\<open>real\<close>: the rounding of IEEE doubles
  is not modelled, and the theorems below state where that matters. Where the exact value
  of a product is a whole number the double can miss it by one unit in the last place
  (\<^verbatim>\<open>150 * (1 - 0.18)\<close> is 123 exactly and 123.00000000000001 in doubles), so the model
  can give a whole channel where the code gives a fractional one; no statement below
  rests on a derived channel being whole.
\<close>

text \<open>The exceptions the code can raise, as values.\<close>

datatype js_error = ImageLoadError | SecurityError | TypeError | NetworkError | HttpError nat | SyntaxError

text \<open>\<^verbatim>\<open>\s\<close> and \<^verbatim>\<open>String.prototype.trim\<close>: tab, line feed, vertical tab, form feed,
  carriage return, space and no-break space are the white space characters below 256.\<close>

definition isWhiteSpace :: "char \<Rightarrow> bool" where
  "isWhiteSpace c = (let n = (of_char c :: nat) in (9 \<le> n \<and> n \<le> 13) \<or> n = 32 \<or> n = 160)"

text \<open>\<^verbatim>\<open>\w\<close> is \<^verbatim>\<open>[A-Za-z0-9_]\<close>.\<close>

definition isWordChar :: "char \<Rightarrow> bool" where
  "isWordChar c = (let n = (of_char c :: nat) in
     (48 \<le> n \<and> n \<le> 57) \<or> (65 \<le> n \<and> n \<le> 90) \<or> n = 95 \<or> (97 \<le> n \<and> n \<le> 122))"

definition trim :: "string \<Rightarrow> string" where
  "trim s = rev (dropWhile isWhiteSpace (rev (dropWhile isWhiteSpace s)))"

text \<open>\<^verbatim>\<open>toLowerCase\<close> on code units below 256: A-Z and the Latin-1 capitals
  (0xC0-0xDE without the multiplication sign 0xD7) move up by 32.\<close>

definition toLowerChar :: "char \<Rightarrow> char" where
  "toLowerChar c = (let n = (of_char c :: nat) in
     if (65 \<le> n \<and> n \<le> 90) \<or> (192 \<le> n \<and> n \<le> 222 \<and> n \<noteq> 215) then char_of (n + 32) else c)"

definition toLowerCase :: "string \<Rightarrow> string" where
  "toLowerCase s = map toLowerChar s"

text \<open>\<^verbatim>\<open>toUpperCase\<close> is only applied to the output of \<^verbatim>\<open>rgbToHex\<close>, which is ASCII
  (a hash sign, hexadecimal digits and possibly a point): a-z move down by 32.\<close>

definition toUpperChar :: "char \<Rightarrow> char" where
  "toUpperChar c = (let n = (of_char c :: nat) in
     if 97 \<le> n \<and> n \<le> 122 then char_of (n - 32) else c)"

definition toUpperCase :: "string \<Rightarrow> string" where
  "toUpperCase s = map toUpperChar s"

text \<open>\<^verbatim>\<open>haystack.includes(needle)\<close>.\<close>

fun startsWith :: "string \<Rightarrow> string \<Rightarrow> bool" where
  "startsWith s [] = True"
| "startsWith [] (c # cs) = False"
| "startsWith (d # ds) (c # cs) = (d = c \<and> startsWith ds cs)"

fun includesStr :: "string \<Rightarrow> string \<Rightarrow> bool" where
  "includesStr [] needle = (needle = [])"
| "includesStr (d # ds) needle = (startsWith (d # ds) needle \<or> includesStr ds needle)"

subsection \<open>parseInt(s, 16) and Number.prototype.toString(16)\<close>

definition hexDigitValue :: "char \<Rightarrow> nat option" where
  "hexDigitValue c = (let n = (of_char c :: nat) in
     if 48 \<le> n \<and> n \<le> 57 then Some (n - 48)
     else if 97 \<le> n \<and> n \<le> 102 then Some (n - 87)
     else if 65 \<le> n \<and> n \<le> 70 then Some (n - 55)
     else None)"

definition isHexDigit :: "char \<Rightarrow> bool" where
  "isHexDigit c = (hexDigitValue c \<noteq> None)"

definition digitsValue :: "string \<Rightarrow> nat" where
  "digitsValue ds = foldl (\<lambda>acc c. case hexDigitValue c of Some d \<Rightarrow> 16 * acc + d | None \<Rightarrow> acc) 0 ds"

text \<open>
  \<^verbatim>\<open>parseInt(s, 16)\<close> as ECMAScript defines it: leading white space is skipped, a sign is
  read, a prefix \<^verbatim>\<open>0x\<close> or \<^verbatim>\<open>0X\<close> is dropped, and the longest prefix of hexadecimal
  digits is the value; with no digit the result is NaN, here \<^const>\<open>None\<close>.
\<close>

definition parseInt16 :: "string \<Rightarrow> int option" where
  "parseInt16 s =
     (let s1 = dropWhile isWhiteSpace s;
          neg = (case s1 of [] \<Rightarrow> False | c # _ \<Rightarrow> c = CHR ''-'');
          s2 = (case s1 of [] \<Rightarrow> [] | c # cs \<Rightarrow> if c = CHR ''-'' \<or> c = CHR ''+'' then cs else s1);
          s3 = (case s2 of
                  c # d # cs \<Rightarrow> if c = CHR ''0'' \<and> (d = CHR ''x'' \<or> d = CHR ''X'') then cs else s2
                | _ \<Rightarrow> s2);
          z = takeWhile isHexDigit s3
      in if z = [] then None
         else Some (if neg then - int (digitsValue z) else int (digitsValue z)))"

text \<open>The operands of \<^verbatim>\<open>>>\<close> and \<^verbatim>\<open>&\<close> are converted by ToInt32; NaN becomes 0.\<close>

definition toInt32 :: "int option \<Rightarrow> int" where
  "toInt32 v = (case v of None \<Rightarrow> 0 | Some n \<Rightarrow> signed_take_bit 31 n)"

definition hexDigit :: "nat \<Rightarrow> char" where
  "hexDigit d = (if d < 10 then char_of (48 + d) else char_of (87 + d))"

fun natToHex :: "nat \<Rightarrow> string" where
  "natToHex n = (if n < 16 then [hexDigit n] else natToHex (n div 16) @ [hexDigit (n mod 16)])"

fun fracDigits :: "nat \<Rightarrow> real \<Rightarrow> string" where
  "fracDigits 0 f = []"
| "fracDigits (Suc k) f =
     (if f = 0 then []
      else hexDigit (nat \<lfloor>16 * f\<rfloor>) # fracDigits k (16 * f - of_int \<lfloor>16 * f\<rfloor>))"

text \<open>
  \<^verbatim>\<open>v.toString(16)\<close> for a number \<open>v \<ge> 0\<close>: the integer part in lower-case hexadecimal
  digits and, when \<open>v\<close> is not an integer, a point and the digits of the fraction. The
  engine prints as many fraction digits as identify the double; the model prints those of
  the exact value, at most 13 (52 bits), so the last digits after the point can differ
  from the engine's (\<^verbatim>\<open>45.9\<close> is \<^verbatim>\<open>2d.e66666666666\<close> there and has one more 6 here).
  For an integer \<open>v\<close> the model is exact, and so are the digits before the point.
\<close>

definition numToString16 :: "real \<Rightarrow> string" where
  "numToString16 v =
     (let i = \<lfloor>v\<rfloor>; f = v - of_int i
      in natToHex (nat i) @ (if f = 0 then [] else CHR ''.'' # fracDigits 13 f))"

definition padStart2 :: "string \<Rightarrow> string" where
  "padStart2 s = replicate (2 - length s) CHR ''0'' @ s"

section \<open>Colour arithmetic (flagColorExtractor)\<close>

record rgb =
  r :: real
  g :: real
  b :: real

definition clamp255 :: "real \<Rightarrow> real" where
  "clamp255 v = max 0 (min 255 v)"

text \<open>\<^verbatim>\<open>hex.replace('#', '')\<close> removes the first hash sign, wherever it stands.\<close>

definition hexToRgb :: "string \<Rightarrow> rgb option" where
  "hexToRgb hex =
     (let clean = trim (remove1 CHR ''#'' hex)
      in if length clean \<noteq> 6 then None
         else let num = toInt32 (parseInt16 clean)
              in Some \<lparr> r = of_int (drop_bit 16 num AND 255),
                        g = of_int (drop_bit 8 num AND 255),
                        b = of_int (num AND 255) \<rparr>)"

definition toHex :: "real \<Rightarrow> string" where
  "toHex v = padStart2 (numToString16 (clamp255 v))"

definition rgbToHex :: "rgb \<Rightarrow> string" where
  "rgbToHex c = toUpperCase (CHR ''#'' # toHex (r c) @ toHex (g c) @ toHex (b c))"

definition lighten :: "string \<Rightarrow> real \<Rightarrow> string" where
  "lighten color amount =
     (case hexToRgb color of
        None \<Rightarrow> color
      | Some rgb \<Rightarrow> rgbToHex \<lparr> r = r rgb + (255 - r rgb) * amount,
                               g = g rgb + (255 - g rgb) * amount,
                               b = b rgb + (255 - b rgb) * amount \<rparr>)"

definition darken :: "string \<Rightarrow> real \<Rightarrow> string" where
  "darken color amount =
     (case hexToRgb color of
        None \<Rightarrow> color
      | Some rgb \<Rightarrow> rgbToHex \<lparr> r = r rgb * (1 - amount),
                               g = g rgb * (1 - amount),
                               b = b rgb * (1 - amount) \<rparr>)"

text \<open>
  \<^verbatim>\<open>mix(colorA, colorB, ratio)\<close>, for colours that are strings or absent (\<^const>\<open>None\<close>:
  \<^verbatim>\<open>undefined\<close> or \<^verbatim>\<open>null\<close>). Its first two lines call \<^verbatim>\<open>hexToRgb\<close> on both colours, and
  \<^verbatim>\<open>hexToRgb\<close> begins with \<^verbatim>\<open>hex.replace\<close>: on an absent colour that raises a TypeError,
  before the test \<^verbatim>\<open>!a || !b\<close> is reached. The result is the string returned
  (\<^const>\<open>Inr\<close>) or the exception raised (\<^const>\<open>Inl\<close>). Where both colours are strings,
  \<^verbatim>\<open>colorA || colorB\<close> is \<^verbatim>\<open>colorB\<close> exactly when \<^verbatim>\<open>colorA\<close> is the empty string, the only
  falsy string.
\<close>

definition mix :: "string option \<Rightarrow> string option \<Rightarrow> real \<Rightarrow> js_error + string" where
  "mix colorA colorB ratio =
     (case (colorA, colorB) of
        (Some sa, Some sb) \<Rightarrow>
          (case (hexToRgb sa, hexToRgb sb) of
             (Some ca, Some cb) \<Rightarrow>
               (let t = max 0 (min 1 ratio)
                in Inr (rgbToHex \<lparr> r = r ca * (1 - t) + r cb * t,
                                   g = g ca * (1 - t) + g cb * t,
                                   b = b ca * (1 - t) + b cb * t \<rparr>))
           | _ \<Rightarrow> Inr (if sa \<noteq> [] then sa else sb))
      | _ \<Rightarrow> Inl TypeError)"

text \<open>Digit values of hexadecimal characters, used to state what \<^const>\<open>hexToRgb\<close> reads.\<close>

definition hexVal :: "char \<Rightarrow> nat" where
  "hexVal c = (case hexDigitValue c of Some d \<Rightarrow> d | None \<Rightarrow> 0)"

definition getLuma :: "rgb \<Rightarrow> real" where
  "getLuma c = 0.2126 * r c + 0.7152 * g c + 0.0722 * b c"

definition getSaturation :: "rgb \<Rightarrow> real" where
  "getSaturation c =
     (let mx = max (r c) (max (g c) (b c));
          mn = min (r c) (min (g c) (b c))
      in if mx = 0 then 0 else (mx - mn) / mx)"

definition quantize :: "rgb \<Rightarrow> real \<Rightarrow> rgb" where
  "quantize c step =
     (let q = (\<lambda>v. of_int \<lfloor>v / step\<rfloor> * step + step / 2)
      in \<lparr> r = q (r c), g = q (g c), b = q (b c) \<rparr>)"

text \<open>On colours with integer channels the sum of squares is exact in doubles and the
  square root is correctly rounded, so \<^verbatim>\<open>colorDistance(a, b) > 40\<close> holds in the code
  exactly when it holds for the real square root.\<close>

definition colorDistance :: "rgb \<Rightarrow> rgb \<Rightarrow> real" where
  "colorDistance c1 c2 =
     (let dr = r c1 - r c2; dg = g c1 - g c2; db = b c1 - b c2
      in sqrt (dr * dr + dg * dg + db * db))"

section \<open>Flag palette extraction (flagColorExtractor)\<close>

text \<open>
  The pixel array \<^verbatim>\<open>data\<close> that \<^verbatim>\<open>getImageData\<close> returns holds four bytes per pixel
  (a \<^verbatim>\<open>Uint8ClampedArray\<close>). Loading the image, scaling it to at most 20000 pixels and
  drawing it on the canvas are the browser's work: the model takes their outcome from the
  host as \<open>load\<close>, which gives the pixel array of a URL or the exception raised on the
  way (the image does not load, the canvas is tainted).
\<close>

type_synonym pixel = "8 word \<times> 8 word \<times> 8 word \<times> 8 word"

type_synonym image_loader = "string \<Rightarrow> js_error + pixel list"

text \<open>
  \<^verbatim>\<open>buckets\<close> is a \<^verbatim>\<open>Map\<close>: it keeps its keys in insertion order, and setting a key it
  has keeps the key's place. The key \<^verbatim>\<open>`${q.r}|${q.g}|${q.b}`\<close> is read back into the same
  three numbers, so the model keys the buckets by the quantized colour itself.
\<close>

definition bump :: "(rgb \<times> nat) list \<Rightarrow> rgb \<Rightarrow> (rgb \<times> nat) list" where
  "bump buckets key =
     (if key \<in> set (map fst buckets)
      then map (\<lambda>(k, n). if k = key then (k, n + 1) else (k, n)) buckets
      else buckets @ [(key, 1)])"

text \<open>
  The three filters of a pixel. Saturation is a quotient of two integers below 256 and the
  comparison with 0.15 comes out the same in doubles; the luma is a sum of three rounded
  products, which the model computes exactly. The theorems on the result hold for any
  outcome of the filters.
\<close>

definition keepPixel :: "pixel \<Rightarrow> bool" where
  "keepPixel p =
     (case p of (pr, pg, pb, pa) \<Rightarrow>
        (let c = \<lparr> r = real (unat pr), g = real (unat pg), b = real (unat pb) \<rparr>
         in \<not> unat pa < 200 \<and> \<not> getSaturation c < 0.15
            \<and> \<not> (getLuma c < 20 \<or> getLuma c > 235)))"

definition pixelBucket :: "pixel \<Rightarrow> rgb" where
  "pixelBucket p =
     (case p of (pr, pg, pb, pa) \<Rightarrow>
        quantize \<lparr> r = real (unat pr), g = real (unat pg), b = real (unat pb) \<rparr> 32)"

definition countBuckets :: "pixel list \<Rightarrow> (rgb \<times> nat) list" where
  "countBuckets data = foldl (\<lambda>buckets p. if keepPixel p then bump buckets (pixelBucket p) else buckets) [] data"

text \<open>\<^verbatim>\<open>sort((a, b) => b[1] - a[1])\<close> is stable: equal counts keep their insertion order.\<close>

definition sampleImageColors :: "pixel list \<Rightarrow> rgb list" where
  "sampleImageColors data = take 6 (map fst (sort_key (\<lambda>(k, n). - int n) (countBuckets data)))"

record flag_result =
  primary :: string
  secondary :: "string option"

type_synonym flag_cache = "string \<rightharpoonup> flag_result"

text \<open>The \<^verbatim>\<open>try\<close> block of \<^verbatim>\<open>extractFlagColors\<close>; \<^const>\<open>Inl\<close> is an exception raised in it.\<close>

definition extractTry :: "image_loader \<Rightarrow> string \<Rightarrow> string \<Rightarrow> js_error + flag_result" where
  "extractTry load flagUrl fallbackColor =
     (case load flagUrl of
        Inl e \<Rightarrow> Inl e
      | Inr data \<Rightarrow>
          (let colors = sampleImageColors data;
               prim = (case colors of
                         c # _ \<Rightarrow> c
                       | [] \<Rightarrow> (case hexToRgb fallbackColor of
                                   Some c \<Rightarrow> c
                                 | None \<Rightarrow> \<lparr> r = 136, g = 136, b = 136 \<rparr>));
               sec = find (\<lambda>c. colorDistance c prim > 40) colors
           in Inr \<lparr> primary = rgbToHex prim, secondary = map_option rgbToHex sec \<rparr>))"

text \<open>
  \<^verbatim>\<open>extractFlagColors(flagUrl, fallbackColor)\<close>. The image reference is absent
  (\<^const>\<open>None\<close>) or a string, and falsy when absent or empty. The result is the value the
  promise resolves to (\<^const>\<open>Inr\<close>) or the exception it rejects with (\<^const>\<open>Inl\<close>),
  together with the module's \<^verbatim>\<open>flagColorCache\<close> after the call.
\<close>

definition fallbackResult :: "string \<Rightarrow> flag_result" where
  "fallbackResult fallbackColor = \<lparr> primary = fallbackColor, secondary = None \<rparr>"

definition extractFlagColors ::
  "image_loader \<Rightarrow> flag_cache \<Rightarrow> string option \<Rightarrow> string \<Rightarrow> (js_error + flag_result) \<times> flag_cache" where
  "extractFlagColors load cache flagUrl fallbackColor =
     (case flagUrl of
        None \<Rightarrow> (Inr (fallbackResult fallbackColor), cache)
      | Some url \<Rightarrow>
          if url = [] then (Inr (fallbackResult fallbackColor), cache)
          else (case cache url of
                  Some res \<Rightarrow> (Inr res, cache)
                | None \<Rightarrow>
                    (case extractTry load url fallbackColor of
                       Inr res \<Rightarrow> (Inr res, cache(url \<mapsto> res))
                     | Inl err \<Rightarrow>
                         (Inr (fallbackResult fallbackColor),
                          cache(url \<mapsto> fallbackResult fallbackColor)))))"

text \<open>
  The invariant of a result: a secondary colour, when there is one, is a colour farther
  than 40 from the primary colour.
\<close>

definition secondaryFar :: "flag_result \<Rightarrow> bool" where
  "secondaryFar res =
     (case secondary res of
        None \<Rightarrow> True
      | Some s \<Rightarrow>
          (case (hexToRgb s, hexToRgb (primary res)) of
             (Some cs, Some cp) \<Rightarrow> colorDistance cs cp > 40
           | _ \<Rightarrow> False))"

text \<open>A colour whose channels are integers from 0 to 255.\<close>

definition byteColor :: "rgb \<Rightarrow> bool" where
  "byteColor c = (\<exists>n1 n2 n3. n1 < 256 \<and> n2 < 256 \<and> n3 < 256 \<and>
      c = \<lparr> r = real n1, g = real n2, b = real n3 \<rparr>)"

section \<open>Country palettes (flagColorExtractor)\<close>

definition CONTINENT_BASE_COLORS :: "(string \<times> string) list" where
  "CONTINENT_BASE_COLORS =
     [(''Africa'', ''#F4CE29''), (''Americas'', ''#32A189''), (''Asia'', ''#FF6B6B''),
      (''Europe'', ''#8BBED8''), (''Oceania'', ''#C77442''), (''Antarctic'', ''#7C94A4''),
      (''default'', ''#B1C4BB'')]"

text \<open>\<^verbatim>\<open>x || y\<close> on values that are absent or strings.\<close>

definition jsOr :: "string option \<Rightarrow> string option \<Rightarrow> string option" where
  "jsOr x y = (case x of None \<Rightarrow> y | Some s \<Rightarrow> if s = [] then y else x)"

text \<open>\<^verbatim>\<open>TABLE[key] || TABLE.default\<close> for a key that is absent or a string. The tables are
  object literals, modelled by their own keys: a key that names a property inherited from
  \<^verbatim>\<open>Object.prototype\<close> is outside the model.\<close>

definition tableColor :: "(string \<times> string) list \<Rightarrow> string option \<Rightarrow> string" where
  "tableColor table key =
     (case jsOr (case key of None \<Rightarrow> None | Some k \<Rightarrow> map_of table k) (map_of table ''default'') of
        Some c \<Rightarrow> c
      | None \<Rightarrow> [])"

record country =
  region :: "string option"
  flag :: "string option"
  flagUrl :: "string option"
  flags_svg :: "string option"
  flags_png :: "string option"

record palette_options =
  opt_baseColor :: "string option"
  opt_fallbackAccent :: "string option"

record palette =
  base :: string
  accent :: string
  accentLight :: string
  accentDark :: string
  muted :: string
  secondaryColor :: "string option"

definition getCountryPalette ::
  "image_loader \<Rightarrow> flag_cache \<Rightarrow> country \<Rightarrow> palette_options \<Rightarrow> (js_error + palette) \<times> flag_cache" where
  "getCountryPalette load cache ctry options =
     (let baseColor = (case opt_baseColor options of
                         Some c \<Rightarrow> c
                       | None \<Rightarrow> tableColor CONTINENT_BASE_COLORS (region ctry));
          fallbackAccent = (case opt_fallbackAccent options of Some c \<Rightarrow> c | None \<Rightarrow> ''#C77442'');
          url = jsOr (jsOr (jsOr (flag ctry) (flagUrl ctry)) (flags_svg ctry)) (flags_png ctry)
      in case extractFlagColors load cache url fallbackAccent of
           (Inl err, cache') \<Rightarrow> (Inl err, cache')
         | (Inr res, cache') \<Rightarrow>
             (let acc = (if primary res \<noteq> [] then primary res else fallbackAccent)
              in case mix (Some baseColor) (Some acc) 0.35 of
                   Inl err \<Rightarrow> (Inl err, cache')
                 | Inr mixed \<Rightarrow>
                     (Inr \<lparr> base = baseColor,
                            accent = acc,
                            accentLight = lighten acc 0.18,
                            accentDark = darken acc 0.18,
                            muted = mixed,
                            secondaryColor = secondary res \<rparr>, cache')))"

section \<open>Progressive enrichment of the globe's features (GlobeView)\<close>

definition COUNTRY_COLORS :: "string list" where
  "COUNTRY_COLORS =
     [''#FF6B6B'', ''#4ECDC4'', ''#45B7D1'', ''#FFA07A'', ''#98D8C8'', ''#F7DC6F'',
      ''#BB8FCE'', ''#85C1E2'', ''#F8B88B'', ''#52C9BA'', ''#3498DB'', ''#E74C3C'',
      ''#1ABC9C'', ''#F39C12'', ''#9B59B6'', ''#E91E63'', ''#00BCD4'', ''#4CAF50'',
      ''#FF5722'', ''#673AB7'', ''#00E676'', ''#FF1744'', ''#00B0FF'', ''#76FF03'',
      ''#FFB300'', ''#00E5FF'', ''#FF6E40'', ''#AB47BC'', ''#26A69A'', ''#FFEB3B'']"

text \<open>GlobeView has a table of its own for the continents' base colours.\<close>

definition GLOBE_CONTINENT_BASE_COLORS :: "(string \<times> string) list" where
  "GLOBE_CONTINENT_BASE_COLORS =
     [(''Africa'', ''#79B957''), (''Americas'', ''#32A189''), (''Asia'', ''#F4CE29''),
      (''Europe'', ''#8BBED8''), (''Oceania'', ''#C77442''), (''Antarctic'', ''#7C94A4''),
      (''default'', ''#B1C4BB'')]"

definition getCountryColor :: "nat \<Rightarrow> string" where
  "getCountryColor i = COUNTRY_COLORS ! (i mod length COUNTRY_COLORS)"

text \<open>A GeoJSON feature: its \<^verbatim>\<open>id\<close> and the properties the code reads, each absent or a string.\<close>

record geo_feature =
  feature_id :: "string option"
  ISO_A3 :: "string option"
  ADM0_A3 :: "string option"
  iso_a3 :: "string option"
  CONTINENT :: "string option"
  continent :: "string option"
  REGION_UN :: "string option"
  region_un :: "string option"
  REGION :: "string option"
  region_prop :: "string option"

record feature = geo_feature +
  color :: string
  baseColor :: string

definition getBaseColorForFeature :: "'a geo_feature_scheme \<Rightarrow> string" where
  "getBaseColorForFeature props =
     tableColor GLOBE_CONTINENT_BASE_COLORS
       (jsOr (jsOr (jsOr (jsOr (jsOr (CONTINENT props) (continent props)) (REGION_UN props))
          (region_un props)) (REGION props)) (region_prop props))"

text \<open>The \<^verbatim>\<open>forEach\<close> that gives every feature its \<^verbatim>\<open>color\<close> and \<^verbatim>\<open>baseColor\<close>.\<close>

definition initFeature :: "nat \<Rightarrow> geo_feature \<Rightarrow> feature" where
  "initFeature i f =
     (let c = (if getBaseColorForFeature f \<noteq> [] then getBaseColorForFeature f else getCountryColor i)
      in geo_feature.extend f \<lparr> color = c, baseColor = c \<rparr>)"

definition initFeatures :: "geo_feature list \<Rightarrow> feature list" where
  "initFeatures fs = map (\<lambda>(i, f). initFeature i f) (enumerate 0 fs)"

text \<open>
  The body of \<^verbatim>\<open>slice.map(async feature => ...)\<close> for one feature. \<open>getPalette\<close> stands for
  \<^verbatim>\<open>getCountryPalette\<close> (with the host's image loader): taking it as a parameter lets the
  theorems speak of every way a palette derivation can fail. ISO codes are ASCII, where
  \<^const>\<open>toUpperCase\<close> is exact.
\<close>

type_synonym palette_fn = "flag_cache \<Rightarrow> country \<Rightarrow> palette_options \<Rightarrow> (js_error + palette) \<times> flag_cache"

definition enrichFeature ::
  "palette_fn \<Rightarrow> (string \<rightharpoonup> country) \<Rightarrow> flag_cache \<Rightarrow> feature \<Rightarrow> feature \<times> flag_cache" where
  "enrichFeature getPalette flagMap cache f =
     (case jsOr (jsOr (jsOr (feature_id f) (ISO_A3 f)) (ADM0_A3 f)) (iso_a3 f) of
        None \<Rightarrow> (f, cache)
      | Some iso3 \<Rightarrow>
          if iso3 = [] then (f, cache)
          else (case flagMap (toUpperCase iso3) of
                  None \<Rightarrow> (f, cache)
                | Some lookup \<Rightarrow>
                    (let countryObj = \<lparr> region = region lookup, flag = None, flagUrl = None,
                                         flags_svg = flags_svg lookup, flags_png = flags_png lookup \<rparr>
                     in case getPalette cache countryObj
                               \<lparr> opt_baseColor = Some (baseColor f), opt_fallbackAccent = None \<rparr> of
                          (Inr pal, cache') \<Rightarrow>
                            (f\<lparr> color := (if accent pal \<noteq> [] then accent pal else baseColor f) \<rparr>, cache')
                        | (Inl err, cache') \<Rightarrow> (f\<lparr> color := baseColor f \<rparr>, cache'))))"

text \<open>
  One slice, \<^verbatim>\<open>await Promise.all(slice.map(...))\<close>. The units of a slice interleave only at
  their awaits; each writes the colour of its own feature, and a cache entry depends on
  the URL alone, so the model runs them one after the other, in the order of the slice.
\<close>

definition processSlice ::
  "palette_fn \<Rightarrow> (string \<rightharpoonup> country) \<Rightarrow> feature list \<Rightarrow> flag_cache \<Rightarrow> nat \<Rightarrow> nat
     \<Rightarrow> feature list \<times> flag_cache" where
  "processSlice getPalette flagMap features cache start end =
     foldl (\<lambda>(fs, c) i. case enrichFeature getPalette flagMap c (fs ! i) of
                            (f', c') \<Rightarrow> (fs[i := f'], c'))
       (features, cache) [start..<end]"

definition concurrency :: nat where
  "concurrency = 6"

text \<open>
  \<^verbatim>\<open>processNext\<close>, with \<^verbatim>\<open>index\<close> as an argument. Every call publishes once
  (\<^verbatim>\<open>globe.polygonCapColor\<close>): the model returns, with the features and the cache, the
  list of what each publication shows, the colours of all features at that moment.
\<close>

function processNext ::
  "palette_fn \<Rightarrow> (string \<rightharpoonup> country) \<Rightarrow> feature list \<Rightarrow> flag_cache \<Rightarrow> nat
     \<Rightarrow> feature list \<times> flag_cache \<times> string list list" where
  "processNext getPalette flagMap features cache index =
     (let start = index;
          end = min (length features) (start + concurrency)
      in case processSlice getPalette flagMap features cache start end of
           (features', cache') \<Rightarrow>
             if end < length features
             then (case processNext getPalette flagMap features' cache' end of
                     (fs, c, pubs) \<Rightarrow> (fs, c, map color features' # pubs))
             else (features', cache', [map color features']))"
  by pat_completeness auto
termination
proof (relation "measure (\<lambda>(gp, fm, features, cache, index). length features - index)", goal_cases)
  case 1
  show ?case by simp
next
  case (2 getPalette flagMap features cache index start stop features' cache')
  have keep: "length (fst (foldl (\<lambda>(fs, c) i. case enrichFeature getPalette flagMap c (fs ! i) of
                            (f', c') \<Rightarrow> (fs[i := f'], c')) acc js)) = length (fst acc)"
    for acc :: "feature list \<times> flag_cache" and js :: "nat list"
    by (induction js arbitrary: acc) (auto split: prod.splits)
  have "length features' = length features"
    using keep [of "(features, cache)" "[start..<stop]"] 2(3)
    by (simp add: processSlice_def) (metis fst_conv)
  moreover have "index < stop"
    using 2 by (simp add: concurrency_def min_def split: if_splits)
  ultimately show ?case
    using 2 by simp
qed

declare processNext.simps [simp del]

definition enrich ::
  "palette_fn \<Rightarrow> (string \<rightharpoonup> country) \<Rightarrow> feature list \<Rightarrow> flag_cache
     \<Rightarrow> feature list \<times> flag_cache \<times> string list list" where
  "enrich getPalette flagMap features cache = processNext getPalette flagMap features cache 0"

text \<open>
  The state of the features when the first \<open>k\<close> have had their unit of work and the others
  have not: a feature that had it is what \<^const>\<open>enrichFeature\<close> made of the initial
  feature, under the cache of that moment.
\<close>

definition enriched :: "palette_fn \<Rightarrow> (string \<rightharpoonup> country) \<Rightarrow> feature list \<Rightarrow> nat \<Rightarrow> feature list \<Rightarrow> bool" where
  "enriched getPalette flagMap fs0 k fs =
     (length fs = length fs0 \<and>
      (\<forall>i < length fs0. if i < k then (\<exists>c. fs ! i = fst (enrichFeature getPalette flagMap c (fs0 ! i)))
                          else fs ! i = fs0 ! i))"

section \<open>Country name matching (countryMatcher)\<close>

text \<open>The keys and values of \<^verbatim>\<open>COUNTRY_NAME_MAP\<close>; the o with circumflex is code unit 0xF4.\<close>

definition COUNTRY_NAME_MAP :: "(string \<times> string) list" where
  "COUNTRY_NAME_MAP =
     [(''United States'', ''United States of America''),
      (''United States of America'', ''United States of America''),
      (''USA'', ''United States of America''),
      (''US'', ''United States of America''),
      (''Russia'', ''Russian Federation''),
      (''Russian Federation'', ''Russian Federation''),
      (''UK'', ''United Kingdom''),
      (''United Kingdom'', ''United Kingdom''),
      (''Great Britain'', ''United Kingdom''),
      (''South Korea'', ''Korea, Republic of''),
      (''North Korea'', ''Korea, Democratic People'' @ [CHR 0x27] @ ''s Republic of''),
      (''Czech Republic'', ''Czechia''),
      (''Czechia'', ''Czechia''),
      (''Myanmar'', ''Myanmar''),
      (''Burma'', ''Myanmar''),
      (''Ivory Coast'', ''C'' @ [CHR 0xF4] @ ''te d'' @ [CHR 0x27] @ ''Ivoire''),
      (''C'' @ [CHR 0xF4] @ ''te d'' @ [CHR 0x27] @ ''Ivoire'',
         ''C'' @ [CHR 0xF4] @ ''te d'' @ [CHR 0x27] @ ''Ivoire''),
      (''East Timor'', ''Timor-Leste''),
      (''Timor-Leste'', ''Timor-Leste''),
      (''Macedonia'', ''North Macedonia''),
      (''North Macedonia'', ''North Macedonia''),
      (''Swaziland'', ''Eswatini''),
      (''Eswatini'', ''Eswatini'')]"

text \<open>\<^verbatim>\<open>.replace(/\s+/g, ' ')\<close>: every maximal run of white space becomes one space.\<close>

function collapseSpaces :: "string \<Rightarrow> string" where
  "collapseSpaces [] = []"
| "collapseSpaces (c # cs) =
     (if isWhiteSpace c then CHR '' '' # collapseSpaces (dropWhile isWhiteSpace cs)
      else c # collapseSpaces cs)"
  by pat_completeness auto
termination
  by (relation "measure length") (auto simp: le_imp_less_Suc length_dropWhile_le)

text \<open>\<^verbatim>\<open>normalizeName(name)\<close> for a name that is absent or a string.\<close>

definition normalizeName :: "string option \<Rightarrow> string" where
  "normalizeName name =
     (case name of
        None \<Rightarrow> []
      | Some s \<Rightarrow>
          if s = [] then []
          else collapseSpaces (filter (\<lambda>c. isWordChar c \<or> isWhiteSpace c) (trim (toLowerCase s))))"

text \<open>A record of the REST Countries reference set, with the fields the matcher reads.\<close>

record api_country =
  name_common :: string
  name_official :: string
  altSpellings :: "string list option"
  cca3 :: string

definition matchCountryName :: "string \<Rightarrow> api_country list \<Rightarrow> api_country option" where
  "matchCountryName geoJsonName apiCountries =
     (if geoJsonName = [] \<or> apiCountries = [] then None
      else
        let directMatch =
              (case map_of COUNTRY_NAME_MAP geoJsonName of
                 None \<Rightarrow> None
               | Some mappedName \<Rightarrow>
                   find (\<lambda>c. name_common c = mappedName \<or> name_official c = mappedName) apiCountries)
        in if directMatch \<noteq> None then directMatch
        else
        let exactMatch =
              find (\<lambda>c. toLowerCase (name_common c) = toLowerCase geoJsonName \<or>
                         toLowerCase (name_official c) = toLowerCase geoJsonName) apiCountries
        in if exactMatch \<noteq> None then exactMatch
        else
        let normalizedGeoName = normalizeName (Some geoJsonName);
            normalizedMatch =
              find (\<lambda>c. normalizeName (Some (name_common c)) = normalizedGeoName \<or>
                         normalizeName (Some (name_official c)) = normalizedGeoName) apiCountries
        in if normalizedMatch \<noteq> None then normalizedMatch
        else
        let partialMatch =
              find (\<lambda>c. let commonName = toLowerCase (name_common c);
                             officialName = toLowerCase (name_official c);
                             geoName = toLowerCase geoJsonName
                         in includesStr commonName geoName \<or> includesStr geoName commonName \<or>
                            includesStr officialName geoName \<or> includesStr geoName officialName)
                apiCountries
        in if partialMatch \<noteq> None then partialMatch
        else
        let altNameMatch =
              find (\<lambda>c. case altSpellings c of
                           None \<Rightarrow> False
                         | Some alts \<Rightarrow> list_ex (\<lambda>alt. normalizeName (Some alt) = normalizedGeoName) alts)
                apiCountries
        in if altNameMatch \<noteq> None then altNameMatch
        else None)"

section \<open>The cached reference set (countryMatcher)\<close>

text \<open>
  The module's variables \<^verbatim>\<open>allCountriesCache\<close> and \<^verbatim>\<open>cacheTimestamp\<close>, and a counter of
  the requests handed to the host's \<^verbatim>\<open>fetch\<close>, which the source does not keep: it is what
  the claims about network traffic are stated on.
\<close>

record fetch_state =
  allCountriesCache :: "api_country list option"
  cacheTimestamp :: "nat option"
  fetchCount :: nat

definition CACHE_DURATION :: nat where
  "CACHE_DURATION = 1000 * 60 * 30"

definition maxRetries :: nat where
  "maxRetries = 3"

text \<open>What one request comes to: \<^verbatim>\<open>fetch\<close> rejects, the status is not ok, the body is not
  JSON, or the reference set arrives; with it, what \<^verbatim>\<open>Date.now()\<close> is when the cache is
  written.\<close>

datatype response = FetchRejected | NotOk nat | BadJson | Body "api_country list" nat

text \<open>
  A call of the asynchronous \<^verbatim>\<open>fetchCountryData\<close> runs until its first \<^verbatim>\<open>await\<close> and is
  resumed when the awaited request settles; other calls run in between. A call is
  therefore either waiting for the request of attempt \<open>attempt\<close>, or has returned: the
  value its promise resolves to (\<^const>\<open>Inr\<close>, \<^const>\<open>None\<close> for \<^verbatim>\<open>null\<close>) or the exception
  it rejects with (\<^const>\<open>Inl\<close>).
\<close>

datatype call = Awaiting string nat | Returned "js_error + api_country option"

definition cacheFresh :: "fetch_state \<Rightarrow> nat \<Rightarrow> bool" where
  "cacheFresh st now =
     (case (allCountriesCache st, cacheTimestamp st) of
        (Some cs, Some t) \<Rightarrow> t \<noteq> 0 \<and> int now - int t < int CACHE_DURATION
      | _ \<Rightarrow> False)"

text \<open>The outer \<^verbatim>\<open>catch\<close>: whatever the \<^verbatim>\<open>try\<close> block raises is logged and \<^verbatim>\<open>null\<close> returned.\<close>

definition outerCatch :: "js_error + api_country option \<Rightarrow> js_error + api_country option" where
  "outerCatch res = (case res of Inl err \<Rightarrow> Inr None | Inr v \<Rightarrow> Inr v)"

text \<open>From the call to the first \<^verbatim>\<open>await\<close>: the cache is read, or the first request made.\<close>

definition startCall :: "fetch_state \<Rightarrow> string \<Rightarrow> nat \<Rightarrow> call \<times> fetch_state" where
  "startCall st countryName now =
     (if cacheFresh st now
      then (Returned (outerCatch (Inr (matchCountryName countryName
              (case allCountriesCache st of Some cs \<Rightarrow> cs | None \<Rightarrow> [])))), st)
      else (Awaiting countryName 0, st\<lparr> fetchCount := fetchCount st + 1 \<rparr>))"

text \<open>
  A waiting call is resumed with what its request came to. A reference set is written to
  the cache and matched. A failure is caught by the inner \<^verbatim>\<open>catch\<close>: before the last
  attempt the call sleeps (1s, 2s) and makes the next request; after the last it throws
  \<^verbatim>\<open>lastError\<close>, which the outer \<^verbatim>\<open>catch\<close> receives.
\<close>

definition errorOf :: "response \<Rightarrow> js_error" where
  "errorOf resp = (case resp of FetchRejected \<Rightarrow> NetworkError | NotOk status \<Rightarrow> HttpError status
                   | BadJson \<Rightarrow> SyntaxError | Body cs t \<Rightarrow> TypeError)"

definition resumeCall :: "fetch_state \<Rightarrow> call \<Rightarrow> response \<Rightarrow> call \<times> fetch_state" where
  "resumeCall st cl resp =
     (case cl of
        Returned v \<Rightarrow> (Returned v, st)
      | Awaiting countryName attempt \<Rightarrow>
          (case resp of
             Body allCountries t \<Rightarrow>
               (Returned (outerCatch (Inr (matchCountryName countryName allCountries))),
                st\<lparr> allCountriesCache := Some allCountries, cacheTimestamp := Some t \<rparr>)
           | _ \<Rightarrow>
               if attempt + 1 < maxRetries
               then (Awaiting countryName (attempt + 1), st\<lparr> fetchCount := fetchCount st + 1 \<rparr>)
               else (Returned (outerCatch (Inl (errorOf resp))), st)))"

text \<open>
  One call run alone: \<^verbatim>\<open>fetchCountryData(countryName)\<close> at time \<open>now\<close>, its requests
  coming to \<open>resps\<close> in turn. The result is \<^const>\<open>None\<close> when a request never settles.
\<close>

fun runCall :: "fetch_state \<Rightarrow> call \<Rightarrow> response list \<Rightarrow> (js_error + api_country option) option \<times> fetch_state" where
  "runCall st (Returned v) resps = (Some v, st)"
| "runCall st (Awaiting n a) [] = (None, st)"
| "runCall st (Awaiting n a) (resp # resps) =
     (case resumeCall st (Awaiting n a) resp of (cl, st') \<Rightarrow> runCall st' cl resps)"

definition fetchCountryData ::
  "fetch_state \<Rightarrow> string \<Rightarrow> nat \<Rightarrow> response list \<Rightarrow> (js_error + api_country option) option \<times> fetch_state" where
  "fetchCountryData st countryName now resps =
     (case startCall st countryName now of (cl, st') \<Rightarrow> runCall st' cl resps)"

text \<open>Several calls started one after the other, none resumed in between.\<close>

definition startCalls :: "fetch_state \<Rightarrow> (string \<times> nat) list \<Rightarrow> call list \<times> fetch_state" where
  "startCalls st calls =
     foldl (\<lambda>(cls, s) (n, now). case startCall s n now of (cl, s') \<Rightarrow> (cls @ [cl], s')) ([], st) calls"

text \<open>A request that failed: anything but a reference set.\<close>

definition isFailure :: "response \<Rightarrow> bool" where
  "isFailure resp = (case resp of Body cs t \<Rightarrow> False | _ \<Rightarrow> True)"

section \<open>Properties of the colour arithmetic\<close>

subsection \<open>Hexadecimal digits\<close>

lemma hexVal_lt16: "hexVal c < 16"
  by (auto simp: hexVal_def hexDigitValue_def Let_def)

lemma isHexDigit_value: "isHexDigit c \<Longrightarrow> hexDigitValue c = Some (hexVal c)"
  by (auto simp: hexVal_def isHexDigit_def)

lemma isHexDigit_upper: "isHexDigit c \<Longrightarrow> toUpperChar (hexDigit (hexVal c)) = toUpperChar c"
  by (auto simp: hexVal_def isHexDigit_def hexDigitValue_def Let_def hexDigit_def toUpperChar_def
      split: if_splits)

lemma isHexDigit_not_special:
  "isHexDigit c \<Longrightarrow> \<not> isWhiteSpace c \<and> c \<noteq> CHR ''#'' \<and> c \<noteq> CHR ''-'' \<and> c \<noteq> CHR ''+''
     \<and> c \<noteq> CHR ''x'' \<and> c \<noteq> CHR ''X''"
  by (auto simp: isHexDigit_def hexDigitValue_def Let_def isWhiteSpace_def split: if_splits)

lemma upper_hexDigit:
  "d < 16 \<Longrightarrow> isHexDigit (toUpperChar (hexDigit d)) \<and> hexVal (toUpperChar (hexDigit d)) = d"
  by (auto simp: hexVal_def isHexDigit_def hexDigitValue_def Let_def hexDigit_def toUpperChar_def)

lemma toUpperChar_hash: "toUpperChar CHR ''#'' = CHR ''#''"
  by (simp add: toUpperChar_def)

lemma hexDigit_0: "hexDigit 0 = CHR ''0''"
  by code_simp

subsection \<open>Bytes in and out of a number\<close>

lemma int_and_255: "(k::int) AND 255 = k mod 256"
proof -
  have "k AND mask 8 = k mod 2 ^ 8"
    by (simp flip: take_bit_eq_mask add: take_bit_eq_mod)
  moreover have "(mask 8 :: int) = 255"
    by (simp add: mask_eq_exp_minus_1)
  ultimately show ?thesis by simp
qed

lemma byte_split1:
  fixes a :: nat
  assumes "a < 256" "m < 256" "c < 256"
  shows "(a * 65536 + m * 256 + c) div 65536 = a"
proof -
  have "m * 256 + c < 65536" using assms by simp
  then show ?thesis by simp
qed

lemma byte_split2:
  fixes a :: nat
  assumes "a < 256" "m < 256" "c < 256"
  shows "(a * 65536 + m * 256 + c) div 256 mod 256 = m"
proof -
  have "(a * 65536 + m * 256 + c) div 256 = a * 256 + m" using assms by simp
  then show ?thesis using assms by simp
qed

lemma byte_split3:
  fixes a :: nat
  assumes "a < 256" "m < 256" "c < 256"
  shows "(a * 65536 + m * 256 + c) mod 256 = c"
proof -
  have "a * 65536 + m * 256 + c = (a * 256 + m) * 256 + c" by simp
  then show ?thesis using assms by (simp only: mod_mult_self3 mod_less)
qed

lemma channels_of_int:
  fixes a :: nat
  assumes "a < 256" "m < 256" "c < 256"
  shows "drop_bit 16 (int (a * 65536 + m * 256 + c)) AND 255 = int a"
    and "drop_bit 8 (int (a * 65536 + m * 256 + c)) AND 255 = int m"
    and "int (a * 65536 + m * 256 + c) AND 255 = int c"
proof -
  let ?n = "a * 65536 + m * 256 + c"
  have "drop_bit 16 (int ?n) AND 255 = int (?n div 65536 mod 256)"
    by (simp only: int_and_255 drop_bit_eq_div zdiv_int zmod_int) simp
  also have "?n div 65536 mod 256 = a"
    using assms by (simp only: byte_split1 mod_less)
  finally show "drop_bit 16 (int ?n) AND 255 = int a" .
  have "drop_bit 8 (int ?n) AND 255 = int (?n div 256 mod 256)"
    by (simp only: int_and_255 drop_bit_eq_div zdiv_int zmod_int) simp
  then show "drop_bit 8 (int ?n) AND 255 = int m"
    using assms by (simp only: byte_split2)
  have "int ?n AND 255 = int (?n mod 256)"
    by (simp only: int_and_255 zmod_int) simp
  then show "int ?n AND 255 = int c"
    using assms by (simp only: byte_split3)
qed

lemma toInt32_small: "n < 16777216 \<Longrightarrow> toInt32 (Some (int n)) = int n"
  by (simp add: toInt32_def signed_take_bit_int_eq_self)

subsection \<open>Two digits per channel\<close>

lemma numToString16_nat: "numToString16 (real k) = natToHex k"
  by (simp add: numToString16_def Let_def)

lemma natToHex_byte:
  "d1 < 16 \<Longrightarrow> d2 < 16 \<Longrightarrow> padStart2 (natToHex (d1 * 16 + d2)) = [hexDigit d1, hexDigit d2]"
proof (cases "d1 = 0")
  case True
  assume "d2 < 16"
  with True show ?thesis by (simp add: padStart2_def hexDigit_0)
next
  case False
  assume a: "d1 < 16" "d2 < 16"
  with False have "\<not> d1 * 16 + d2 < 16" by simp
  moreover have "(d1 * 16 + d2) div 16 = d1" "(d1 * 16 + d2) mod 16 = d2" using a by simp_all
  ultimately have "natToHex (d1 * 16 + d2) = [hexDigit d1, hexDigit d2]"
    using a by (subst natToHex.simps) simp
  then show ?thesis by (simp add: padStart2_def)
qed

lemma toHex_byte:
  "d1 < 16 \<Longrightarrow> d2 < 16 \<Longrightarrow> toHex (real (d1 * 16 + d2)) = [hexDigit d1, hexDigit d2]"
proof -
  assume a: "d1 < 16" "d2 < 16"
  then have "d1 * 16 + d2 \<le> 255" by simp
  then have "real (d1 * 16 + d2) \<le> 255" by (metis of_nat_le_iff of_nat_numeral)
  then have "clamp255 (real (d1 * 16 + d2)) = real (d1 * 16 + d2)"
    unfolding clamp255_def by (simp add: min_def max_def)
  then show ?thesis
    unfolding toHex_def using a by (simp only: numToString16_nat natToHex_byte)
qed

lemma rgbToHex_bytes:
  assumes "d1 < 16" "d2 < 16" "d3 < 16" "d4 < 16" "d5 < 16" "d6 < 16"
  shows "rgbToHex \<lparr> r = real (d1 * 16 + d2), g = real (d3 * 16 + d4), b = real (d5 * 16 + d6) \<rparr>
    = CHR ''#'' # map toUpperChar (map hexDigit [d1, d2, d3, d4, d5, d6])"
  unfolding rgbToHex_def toUpperCase_def using assms
  by (simp add: toHex_byte toUpperChar_hash del: of_nat_add of_nat_mult)

subsection \<open>Reading six digits\<close>

lemma digitsValue6:
  assumes "list_all isHexDigit [c1, c2, c3, c4, c5, c6]"
  shows "digitsValue [c1, c2, c3, c4, c5, c6] =
    (hexVal c1 * 16 + hexVal c2) * 65536 + (hexVal c3 * 16 + hexVal c4) * 256
      + (hexVal c5 * 16 + hexVal c6)"
  using assms by (simp add: digitsValue_def isHexDigit_value)

lemma parseInt16_hex6:
  assumes "list_all isHexDigit [c1, c2, c3, c4, c5, c6]"
  shows "parseInt16 [c1, c2, c3, c4, c5, c6] = Some (int (digitsValue [c1, c2, c3, c4, c5, c6]))"
proof -
  from assms have h: "isHexDigit c1" "isHexDigit c2" by simp_all
  have n1: "\<not> isWhiteSpace c1" "c1 \<noteq> CHR ''-''" "c1 \<noteq> CHR ''+''"
    using isHexDigit_not_special [OF h(1)] by simp_all
  have n2: "c2 \<noteq> CHR ''x''" "c2 \<noteq> CHR ''X''"
    using isHexDigit_not_special [OF h(2)] by simp_all
  have t: "takeWhile isHexDigit [c1, c2, c3, c4, c5, c6] = [c1, c2, c3, c4, c5, c6]"
    using assms by simp
  have d: "dropWhile isWhiteSpace [c1, c2, c3, c4, c5, c6] = [c1, c2, c3, c4, c5, c6]"
    using n1 by simp
  show ?thesis
    unfolding parseInt16_def d Let_def list.case using n1 n2
    by (simp only: t if_False simp_thms list.simps)
qed

lemma trim_hex6:
  assumes "list_all isHexDigit [c1, c2, c3, c4, c5, c6]"
  shows "trim [c1, c2, c3, c4, c5, c6] = [c1, c2, c3, c4, c5, c6]"
proof -
  from assms have "\<not> isWhiteSpace c1" "\<not> isWhiteSpace c6"
    using isHexDigit_not_special by simp_all
  then show ?thesis by (simp add: trim_def)
qed

lemma hexToRgb_clean6:
  assumes "list_all isHexDigit [c1, c2, c3, c4, c5, c6]"
    and "trim (remove1 CHR ''#'' s) = [c1, c2, c3, c4, c5, c6]"
  shows "hexToRgb s = Some \<lparr> r = real (hexVal c1 * 16 + hexVal c2),
                             g = real (hexVal c3 * 16 + hexVal c4),
                             b = real (hexVal c5 * 16 + hexVal c6) \<rparr>"
proof -
  let ?a = "hexVal c1 * 16 + hexVal c2" and ?m = "hexVal c3 * 16 + hexVal c4"
    and ?c = "hexVal c5 * 16 + hexVal c6"
  have lt: "?a < 256" "?m < 256" "?c < 256"
    using hexVal_lt16 [of c1] hexVal_lt16 [of c2] hexVal_lt16 [of c3] hexVal_lt16 [of c4]
      hexVal_lt16 [of c5] hexVal_lt16 [of c6] by simp_all
  then have small: "?a * 65536 + ?m * 256 + ?c < 16777216" by simp
  have p: "parseInt16 [c1, c2, c3, c4, c5, c6] = Some (int (?a * 65536 + ?m * 256 + ?c))"
    using assms(1) by (simp only: parseInt16_hex6 digitsValue6)
  have num: "toInt32 (parseInt16 [c1, c2, c3, c4, c5, c6]) = int (?a * 65536 + ?m * 256 + ?c)"
    unfolding p using small by (rule toInt32_small)
  show ?thesis
    unfolding hexToRgb_def assms(2) Let_def num
    by (simp only: channels_of_int [OF lt] of_int_of_nat_eq) simp
qed

lemma hexToRgb_hex6:
  assumes "length ds = 6" "list_all isHexDigit ds" "s = CHR ''#'' # ds \<or> s = ds"
  shows "\<exists>c1 c2 c3 c4 c5 c6. ds = [c1, c2, c3, c4, c5, c6] \<and>
    hexToRgb s = Some \<lparr> r = real (hexVal c1 * 16 + hexVal c2),
                         g = real (hexVal c3 * 16 + hexVal c4),
                         b = real (hexVal c5 * 16 + hexVal c6) \<rparr>"
proof -
  from assms(1) obtain c1 c2 c3 c4 c5 c6 where ds: "ds = [c1, c2, c3, c4, c5, c6]"
    by (auto simp: length_Suc_conv eval_nat_numeral)
  have "CHR ''#'' \<notin> set ds"
    using assms(2) isHexDigit_not_special by (auto simp: list_all_iff)
  then have "remove1 CHR ''#'' s = ds"
    using assms(3) by (auto simp: remove1_idem)
  then have "trim (remove1 CHR ''#'' s) = [c1, c2, c3, c4, c5, c6]"
    using assms(2) unfolding ds by (simp only: trim_hex6)
  with assms(2) show ?thesis
    unfolding ds by (simp only: hexToRgb_clean6) blast
qed

lemma hexToRgb_rgbToHex_bytes:
  assumes "n1 < 256" "n2 < 256" "n3 < 256"
  shows "hexToRgb (rgbToHex \<lparr> r = real n1, g = real n2, b = real n3 \<rparr>)
    = Some \<lparr> r = real n1, g = real n2, b = real n3 \<rparr>"
proof -
  let ?ds = "map toUpperChar (map hexDigit
    [n1 div 16, n1 mod 16, n2 div 16, n2 mod 16, n3 div 16, n3 mod 16])"
  have lt: "n1 div 16 < 16" "n1 mod 16 < 16" "n2 div 16 < 16" "n2 mod 16 < 16"
    "n3 div 16 < 16" "n3 mod 16 < 16"
    using assms by simp_all
  have "rgbToHex \<lparr> r = real (n1 div 16 * 16 + n1 mod 16), g = real (n2 div 16 * 16 + n2 mod 16),
      b = real (n3 div 16 * 16 + n3 mod 16) \<rparr> = CHR ''#'' # ?ds"
    by (rule rgbToHex_bytes [OF lt])
  then have out: "rgbToHex \<lparr> r = real n1, g = real n2, b = real n3 \<rparr> = CHR ''#'' # ?ds"
    by (simp only: div_mult_mod_eq)
  have hd: "list_all isHexDigit ?ds"
    using lt by (simp add: upper_hexDigit)
  have "trim (remove1 CHR ''#'' (CHR ''#'' # ?ds)) = ?ds"
    using trim_hex6 [of "toUpperChar (hexDigit (n1 div 16))"] hd by simp
  then have "hexToRgb (CHR ''#'' # ?ds) = Some \<lparr> r = real (n1 div 16 * 16 + n1 mod 16),
      g = real (n2 div 16 * 16 + n2 mod 16), b = real (n3 div 16 * 16 + n3 mod 16) \<rparr>"
    using hexToRgb_clean6 [of "toUpperChar (hexDigit (n1 div 16))" "toUpperChar (hexDigit (n1 mod 16))"
      "toUpperChar (hexDigit (n2 div 16))" "toUpperChar (hexDigit (n2 mod 16))"
      "toUpperChar (hexDigit (n3 div 16))" "toUpperChar (hexDigit (n3 mod 16))" "CHR ''#'' # ?ds"] hd lt
    by (simp add: upper_hexDigit del: of_nat_add of_nat_mult)
  then show ?thesis
    unfolding out by (simp only: div_mult_mod_eq)
qed

lemma hexToRgb_C77442: "hexToRgb ''#C77442'' = Some \<lparr> r = 199, g = 116, b = 66 \<rparr>"
proof -
  have d: "list_all isHexDigit ''C77442''"
    by (simp add: isHexDigit_def hexDigitValue_def)
  have t: "trim (remove1 CHR ''#'' ''#C77442'') = ''C77442''"
    using trim_hex6 [OF d] by simp
  show ?thesis
    using hexToRgb_clean6 [OF d t] by (simp add: hexVal_def hexDigitValue_def)
qed

subsection \<open>Round trip\<close>

text \<open>
  C9. A well-formed hex colour is six hexadecimal digits \<open>ds\<close>, with or without a hash sign
  before them. \<^const>\<open>hexToRgb\<close> reads it, and \<^const>\<open>rgbToHex\<close> of what it reads is the hash
  sign followed by the same six digits in upper case.
\<close>

theorem hexToRgb_rgbToHex_roundtrip:
  assumes "length ds = 6" "list_all isHexDigit ds" "s = CHR ''#'' # ds \<or> s = ds"
  shows "map_option rgbToHex (hexToRgb s) = Some (CHR ''#'' # toUpperCase ds)"
proof -
  from hexToRgb_hex6 [OF assms] obtain c1 c2 c3 c4 c5 c6 where
    ds: "ds = [c1, c2, c3, c4, c5, c6]" and
    h: "hexToRgb s = Some \<lparr> r = real (hexVal c1 * 16 + hexVal c2),
                         g = real (hexVal c3 * 16 + hexVal c4),
                         b = real (hexVal c5 * 16 + hexVal c6) \<rparr>"
    by blast
  have "rgbToHex \<lparr> r = real (hexVal c1 * 16 + hexVal c2),
                         g = real (hexVal c3 * 16 + hexVal c4),
                         b = real (hexVal c5 * 16 + hexVal c6) \<rparr>
     = CHR ''#'' # map toUpperChar (map hexDigit
         [hexVal c1, hexVal c2, hexVal c3, hexVal c4, hexVal c5, hexVal c6])"
    by (rule rgbToHex_bytes) (rule hexVal_lt16)+
  also have "\<dots> = CHR ''#'' # toUpperCase ds"
    using assms(2) unfolding ds toUpperCase_def by (simp add: isHexDigit_upper)
  finally show ?thesis by (simp add: h)
qed

theorem hexToRgb_rgbToHex_roundtrip_witness:
  "map_option rgbToHex (hexToRgb ''#c77442'') = Some ''#C77442''"
proof -
  have e1: "list_all isHexDigit ''c77442''" by code_simp
  have e2: "toUpperCase ''c77442'' = ''C77442''" by code_simp
  show ?thesis
    using hexToRgb_rgbToHex_roundtrip [of "''c77442''" "''#c77442''", OF _ e1] e2 by simp
qed

subsection \<open>Colours that cannot be parsed\<close>

lemma mix_strings_returns: "\<exists>m. mix (Some a) (Some c) t = Inr m"
  by (auto simp: mix_def Let_def split: option.splits)

lemma mix_strings_not_raise: "mix (Some a) (Some c) t \<noteq> Inl err"
  by (auto simp: mix_def Let_def split: option.splits)




subsection \<open>Derived colours are not rounded\<close>

lemma clamp255_range: "0 \<le> clamp255 v \<and> clamp255 v \<le> 255"
  by (simp add: clamp255_def)

lemma natToHex_209: "natToHex 209 = ''d1''"
proof -
  have "hexDigit 13 = CHR ''d''" "hexDigit (Suc 0) = CHR ''1''" by code_simp+
  then show ?thesis by simp
qed

lemma upper_d1: "map toUpperChar ''#d1.'' = ''#D1.''"
  by code_simp

lemma toHex_20908:
  "toHex (199 + (255 - 199) * 0.18) = CHR ''d'' # CHR ''1'' # CHR ''.'' # fracDigits 13 (2 / 25)"
proof -
  have v: "(199 + (255 - 199) * 0.18 :: real) = 20908 / 100" by simp
  have c: "clamp255 (20908 / 100) = 20908 / 100" by (simp add: clamp255_def)
  have f: "\<lfloor>20908 / 100 :: real\<rfloor> = 209" by simp
  show ?thesis
    unfolding v toHex_def c numToString16_def Let_def f
    by (simp add: natToHex_209 padStart2_def del: natToHex.simps)
qed

text \<open>
  C7 at the default accent. \<^verbatim>\<open>rgbToHex\<close> does not round: \<^verbatim>\<open>lighten('#C77442', 0.18)\<close> has
  the red channel 199 + 56 * 0.18 = 209.08, which \<^verbatim>\<open>toString(16)\<close> prints with a point,
  so the result begins \<^verbatim>\<open>#D1.\<close> and is no six-digit hex colour; it is the \<^verbatim>\<open>accentLight\<close>
  of the palette of every country without a flag. (The exact value is 0.08 away from an
  integer, far more than the rounding of doubles.)
\<close>

theorem lighten_not_hex_color:
  "take 4 (lighten ''#C77442'' 0.18) = ''#D1.'' \<and>
   (\<exists>p. getCountryPalette load cache
            \<lparr> region = None, flag = None, flagUrl = None, flags_svg = None, flags_png = None \<rparr>
            \<lparr> opt_baseColor = None, opt_fallbackAccent = None \<rparr> = (Inr p, cache) \<and>
        accentLight p = lighten ''#C77442'' 0.18)"
proof -
  have "lighten ''#C77442'' 0.18 = toUpperCase (CHR ''#'' # toHex (199 + (255 - 199) * 0.18)
      @ toHex (116 + (255 - 116) * 0.18) @ toHex (66 + (255 - 66) * 0.18))"
    by (simp add: lighten_def hexToRgb_C77442 rgbToHex_def)
  then have "take 4 (lighten ''#C77442'' 0.18) = map toUpperChar ''#d1.''"
    by (simp only: toHex_20908 toUpperCase_def) simp
  then have "take 4 (lighten ''#C77442'' 0.18) = ''#D1.''"
    by (simp only: upper_d1)
  moreover have "\<exists>p. getCountryPalette load cache
            \<lparr> region = None, flag = None, flagUrl = None, flags_svg = None, flags_png = None \<rparr>
            \<lparr> opt_baseColor = None, opt_fallbackAccent = None \<rparr> = (Inr p, cache) \<and>
        accentLight p = lighten ''#C77442'' 0.18"
  proof -
    obtain m where "mix (Some (tableColor CONTINENT_BASE_COLORS None)) (Some ''#C77442'') 0.35 = Inr m"
      using mix_strings_returns by blast
    then show ?thesis
      by (simp add: getCountryPalette_def extractFlagColors_def jsOr_def fallbackResult_def Let_def)
  qed
  ultimately show ?thesis by blast
qed

section \<open>Properties of the flag palette extraction\<close>

subsection \<open>Fallback\<close>

text \<open>
  C5. \<^const>\<open>extractFlagColors\<close> always resolves, never rejects. With no image reference
  (absent or empty) it resolves to the fallback colour with no secondary colour and leaves
  the cache alone. When the image of an uncached URL does not load it resolves to the same
  fallback result and stores it under the URL; after that a call for this URL gets the
  stored result whatever the loader would do and whatever fallback is passed: the image
  is not loaded again.
\<close>

theorem extractFlagColors_fallback:
  "(\<exists>res. fst (extractFlagColors load cache ref fb) = Inr res) \<and>
   (ref = None \<or> ref = Some [] \<longrightarrow>
      extractFlagColors load cache ref fb = (Inr \<lparr> primary = fb, secondary = None \<rparr>, cache)) \<and>
   (url \<noteq> [] \<and> cache url = None \<and> load url = Inl err \<longrightarrow>
      extractFlagColors load cache (Some url) fb
        = (Inr \<lparr> primary = fb, secondary = None \<rparr>, cache(url \<mapsto> \<lparr> primary = fb, secondary = None \<rparr>)) \<and>
      extractFlagColors load' (cache(url \<mapsto> \<lparr> primary = fb, secondary = None \<rparr>)) (Some url) fb'
        = (Inr \<lparr> primary = fb, secondary = None \<rparr>, cache(url \<mapsto> \<lparr> primary = fb, secondary = None \<rparr>)))"
  by (auto simp: extractFlagColors_def fallbackResult_def extractTry_def
      split: option.splits sum.splits)

theorem extractFlagColors_fallback_witness:
  "extractFlagColors (\<lambda>u. Inl ImageLoadError) Map.empty None ''#C77442''
     = (Inr \<lparr> primary = ''#C77442'', secondary = None \<rparr>, Map.empty) \<and>
   extractFlagColors (\<lambda>u. Inl ImageLoadError) Map.empty (Some ''x.svg'') ''#C77442''
     = (Inr \<lparr> primary = ''#C77442'', secondary = None \<rparr>,
        [''x.svg'' \<mapsto> \<lparr> primary = ''#C77442'', secondary = None \<rparr>]) \<and>
   extractFlagColors (\<lambda>u. Inr []) [''x.svg'' \<mapsto> \<lparr> primary = ''#C77442'', secondary = None \<rparr>]
       (Some ''x.svg'') ''#888888''
     = (Inr \<lparr> primary = ''#C77442'', secondary = None \<rparr>,
        [''x.svg'' \<mapsto> \<lparr> primary = ''#C77442'', secondary = None \<rparr>])"
  using extractFlagColors_fallback [of "\<lambda>u. Inl ImageLoadError" Map.empty None "''#C77442''"
      "''x.svg''" ImageLoadError "\<lambda>u. Inr []" "''#888888''"]
  by simp

subsection \<open>The sampled colours are bytes\<close>

lemma quantize_byte:
  assumes "n < 256"
  shows "of_int \<lfloor>real n / 32\<rfloor> * 32 + 32 / 2 = real (n div 32 * 32 + 16)"
    and "n div 32 * 32 + 16 < 256"
proof -
  have "\<lfloor>real n / real 32\<rfloor> = int (n div 32)"
    by (rule floor_divide_of_nat_eq)
  then show "of_int \<lfloor>real n / 32\<rfloor> * 32 + 32 / 2 = real (n div 32 * 32 + 16)"
    by simp
  have "n div 32 < 8" using assms by (simp add: div_less_iff_less_mult)
  then show "n div 32 * 32 + 16 < 256" by simp
qed

lemma pixelBucket_byte: "byteColor (pixelBucket p)"
proof -
  obtain pr pg pb pa where p: "p = (pr, pg, pb, pa)" by (cases p) auto
  have lt: "unat pr < 256" "unat pg < 256" "unat pb < 256"
    using unsigned_less [of pr] unsigned_less [of pg] unsigned_less [of pb] by simp_all
  show ?thesis
    unfolding byteColor_def p pixelBucket_def quantize_def Let_def prod.case
    using quantize_byte [OF lt(1)] quantize_byte [OF lt(2)] quantize_byte [OF lt(3)]
    by (intro exI [of _ "unat pr div 32 * 32 + 16"] exI [of _ "unat pg div 32 * 32 + 16"]
        exI [of _ "unat pb div 32 * 32 + 16"]) (simp del: of_nat_add of_nat_mult)
qed

lemma bump_keys: "set (map fst (bump bs k)) = insert k (set (map fst bs))"
  by (auto simp: bump_def image_iff split: if_splits prod.splits) force+

lemma countBuckets_keys_gen:
  "set (map fst (foldl (\<lambda>buckets p. if keepPixel p then bump buckets (pixelBucket p) else buckets) acc data))
     \<subseteq> set (map fst acc) \<union> pixelBucket ` set data"
proof (induction data arbitrary: acc)
  case Nil
  then show ?case by simp
next
  case (Cons p ps)
  show ?case
    using Cons.IH [of "if keepPixel p then bump acc (pixelBucket p) else acc"] bump_keys [of acc "pixelBucket p"]
    by (auto split: if_splits)
qed

lemma sampleImageColors_byte: "c \<in> set (sampleImageColors data) \<Longrightarrow> byteColor c"
proof -
  assume "c \<in> set (sampleImageColors data)"
  then have "c \<in> set (map fst (sort_key (\<lambda>(k, n). - int n) (countBuckets data)))"
    unfolding sampleImageColors_def by (rule in_set_takeD)
  then have "c \<in> set (map fst (countBuckets data))"
    by simp
  then have "c \<in> pixelBucket ` set data"
    using countBuckets_keys_gen [of "[]" data] unfolding countBuckets_def by auto
  then show ?thesis using pixelBucket_byte by auto
qed

lemma byteColor_roundtrip: "byteColor c \<Longrightarrow> hexToRgb (rgbToHex c) = Some c"
  unfolding byteColor_def using hexToRgb_rgbToHex_bytes by auto

lemma colorDistance_self: "colorDistance c c = 0"
  by (simp add: colorDistance_def)

subsection \<open>The secondary colour\<close>

lemma colorDistance_gt_40:
  "colorDistance c1 c2 > 40 \<longleftrightarrow>
     (r c1 - r c2) * (r c1 - r c2) + (g c1 - g c2) * (g c1 - g c2) + (b c1 - b c2) * (b c1 - b c2) > 1600"
proof -
  have "sqrt (40\<^sup>2) = 40" by simp
  then have "sqrt 1600 = 40" by simp
  then have "40 < sqrt x \<longleftrightarrow> 1600 < x" for x
    using real_sqrt_less_iff [of 1600 x] by simp
  then show ?thesis by (simp add: colorDistance_def Let_def)
qed

lemma find_not_self:
  "find (\<lambda>x. colorDistance x c > 40) (c # cs) = find (\<lambda>x. colorDistance x c > 40) cs"
  by (simp add: colorDistance_self)

lemma extractTry_ranked:
  assumes "load url = Inr data" "sampleImageColors data = c # cs"
  shows "extractTry load url fb = Inr \<lparr> primary = rgbToHex c,
           secondary = map_option rgbToHex (find (\<lambda>x. colorDistance x c > 40) cs) \<rparr>"
  using assms by (simp add: extractTry_def Let_def colorDistance_self)

text \<open>An image whose pixels are all filtered out has no secondary colour.\<close>

lemma extractTry_empty_ranking:
  assumes "load url = Inr data" "sampleImageColors data = []"
  shows "\<exists>p. extractTry load url fb = Inr \<lparr> primary = p, secondary = None \<rparr>"
  using assms by (simp add: extractTry_def Let_def)

lemma extractTry_far:
  assumes "extractTry load url fb = Inr res"
  shows "secondaryFar res"
proof -
  from assms obtain data where ld: "load url = Inr data"
    by (auto simp: extractTry_def split: sum.splits)
  show ?thesis
  proof (cases "sampleImageColors data")
    case Nil
    with ld assms have "secondary res = None"
      by (auto simp: extractTry_def Let_def)
    then show ?thesis by (simp add: secondaryFar_def)
  next
    case (Cons c cs)
    from extractTry_ranked [of load url data c cs fb, OF ld Cons] assms
    have res: "res = \<lparr> primary = rgbToHex c,
           secondary = map_option rgbToHex (find (\<lambda>x. colorDistance x c > 40) cs) \<rparr>"
      by simp
    have pc: "hexToRgb (rgbToHex c) = Some c"
      using sampleImageColors_byte [of c data] Cons by (simp add: byteColor_roundtrip)
    show ?thesis
    proof (cases "find (\<lambda>x. colorDistance x c > 40) cs")
      case None
      then show ?thesis by (simp add: res secondaryFar_def)
    next
      case (Some s)
      then have "s \<in> set cs" "colorDistance s c > 40"
        by (auto simp: find_Some_iff)
      moreover from this have "hexToRgb (rgbToHex s) = Some s"
        using sampleImageColors_byte [of s data] Cons by (simp add: byteColor_roundtrip)
      ultimately show ?thesis
        using pc Some by (simp add: res secondaryFar_def)
    qed
  qed
qed

text \<open>
  C6. Started with a cache whose results keep the invariant, \<^const>\<open>extractFlagColors\<close>
  returns a result that keeps it and a cache that keeps it: a secondary colour, when
  present, is farther than 40 from the primary colour. When the image of an uncached URL
  loads and its ranking is \<open>c # cs\<close>, the primary colour is \<open>c\<close> and the secondary colour is
  the first colour of \<open>cs\<close> farther than 40 from \<open>c\<close>; it is absent when every colour of
  \<open>cs\<close> is within 40 of \<open>c\<close>.
\<close>

theorem secondary_far_from_primary:
  assumes "\<forall>u res0. cache u = Some res0 \<longrightarrow> secondaryFar res0"
  shows "(extractFlagColors load cache ref fb = (Inr res, cache') \<longrightarrow>
            secondaryFar res \<and> (\<forall>u res0. cache' u = Some res0 \<longrightarrow> secondaryFar res0)) \<and>
         (url \<noteq> [] \<and> cache url = None \<and> load url = Inr data \<and> sampleImageColors data = c # cs \<longrightarrow>
            fst (extractFlagColors load cache (Some url) fb)
              = Inr \<lparr> primary = rgbToHex c,
                      secondary = map_option rgbToHex (find (\<lambda>x. colorDistance x c > 40) cs) \<rparr> \<and>
            ((\<forall>x \<in> set cs. colorDistance x c \<le> 40) \<longrightarrow>
               secondary (projr (fst (extractFlagColors load cache (Some url) fb))) = None))"
proof (intro conjI impI)
  assume run: "extractFlagColors load cache ref fb = (Inr res, cache')"
  have fb: "secondaryFar (fallbackResult fb)"
    by (simp add: secondaryFar_def fallbackResult_def)
  from run assms fb show "secondaryFar res"
    by (auto simp: extractFlagColors_def extractTry_far split: option.splits if_splits sum.splits)
  from run assms fb show "\<forall>u res0. cache' u = Some res0 \<longrightarrow> secondaryFar res0"
    by (auto simp: extractFlagColors_def extractTry_far split: option.splits if_splits sum.splits)
next
  assume h: "url \<noteq> [] \<and> cache url = None \<and> load url = Inr data \<and> sampleImageColors data = c # cs"
  then have t: "extractTry load url fb = Inr \<lparr> primary = rgbToHex c,
           secondary = map_option rgbToHex (find (\<lambda>x. colorDistance x c > 40) cs) \<rparr>"
    using extractTry_ranked by blast
  with h show e: "fst (extractFlagColors load cache (Some url) fb)
      = Inr \<lparr> primary = rgbToHex c,
              secondary = map_option rgbToHex (find (\<lambda>x. colorDistance x c > 40) cs) \<rparr>"
    by (simp add: extractFlagColors_def)
  assume "\<forall>x \<in> set cs. colorDistance x c \<le> 40"
  then have "find (\<lambda>x. colorDistance x c > 40) cs = None"
    by (auto simp: find_None_iff)
  then show "secondary (projr (fst (extractFlagColors load cache (Some url) fb))) = None"
    by (simp add: e)
qed

lemma rgbToHex_green: "rgbToHex \<lparr> r = 16, g = 240, b = 16 \<rparr> = ''#10F010''"
proof -
  have "map toUpperChar (map hexDigit [1, 0, 15, 0, 1, 0]) = ''10F010''" by code_simp
  then show ?thesis using rgbToHex_bytes [of 1 0 15 0 1 0] by simp
qed

lemma rgbToHex_red: "rgbToHex \<lparr> r = 240, g = 16, b = 16 \<rparr> = ''#F01010''"
proof -
  have "map toUpperChar (map hexDigit [15, 0, 1, 0, 1, 0]) = ''F01010''" by code_simp
  then show ?thesis using rgbToHex_bytes [of 15 0 1 0 1 0] by simp
qed

theorem secondary_far_from_primary_witness:
  "sampleImageColors [(255, 0, 0, 255), (0, 255, 0, 255), (0, 255, 0, 255)]
     = [\<lparr> r = 16, g = 240, b = 16 \<rparr>, \<lparr> r = 240, g = 16, b = 16 \<rparr>] \<and>
   extractFlagColors (\<lambda>u. Inr [(255, 0, 0, 255), (0, 255, 0, 255), (0, 255, 0, 255)]) Map.empty
       (Some ''f.svg'') ''#C77442''
     = (Inr \<lparr> primary = ''#10F010'', secondary = Some ''#F01010'' \<rparr>,
        [''f.svg'' \<mapsto> \<lparr> primary = ''#10F010'', secondary = Some ''#F01010'' \<rparr>]) \<and>
   secondaryFar \<lparr> primary = ''#10F010'', secondary = Some ''#F01010'' \<rparr>"
proof -
  let ?data = "[(255, 0, 0, 255), (0, 255, 0, 255), (0, 255, 0, 255)] :: pixel list"
  let ?load = "(\<lambda>u. Inr ?data) :: image_loader"
  let ?res = "\<lparr> primary = ''#10F010'', secondary = Some ''#F01010'' \<rparr>"
  have s: "sampleImageColors ?data = [\<lparr> r = 16, g = 240, b = 16 \<rparr>, \<lparr> r = 240, g = 16, b = 16 \<rparr>]"
    by (simp add: sampleImageColors_def countBuckets_def keepPixel_def pixelBucket_def quantize_def
        getSaturation_def getLuma_def Let_def bump_def)
  have f: "find (\<lambda>x. colorDistance x \<lparr> r = 16, g = 240, b = 16 \<rparr> > 40) [\<lparr> r = 240, g = 16, b = 16 \<rparr>]
     = Some \<lparr> r = 240, g = 16, b = 16 \<rparr>"
    by (simp add: colorDistance_gt_40)
  have e: "extractFlagColors ?load Map.empty (Some ''f.svg'') ''#C77442''
     = (Inr ?res, [''f.svg'' \<mapsto> ?res])"
    by (simp add: extractFlagColors_def extractTry_def s Let_def colorDistance_gt_40
        rgbToHex_green rgbToHex_red)
  have inv: "\<forall>u res0. (Map.empty :: flag_cache) u = Some res0 \<longrightarrow> secondaryFar res0"
    by simp
  from secondary_far_from_primary [OF inv, of ?load "Some ''f.svg''" "''#C77442''" ?res
      "[''f.svg'' \<mapsto> ?res]" "''f.svg''" ?data "\<lparr> r = 16, g = 240, b = 16 \<rparr>"
      "[\<lparr> r = 240, g = 16, b = 16 \<rparr>]"] e
  have "secondaryFar ?res" by simp
  with s e show ?thesis by simp
qed

section \<open>Properties of the enrichment\<close>

subsection \<open>Slices\<close>

lemma processSlice_Suc:
  "s \<le> e \<Longrightarrow> processSlice gp fm fs c s (Suc e) =
     (case processSlice gp fm fs c s e of
        (fs1, c1) \<Rightarrow> (case enrichFeature gp fm c1 (fs1 ! e) of (f', c') \<Rightarrow> (fs1[e := f'], c')))"
  by (simp add: processSlice_def split: prod.splits)

lemma processSlice_empty: "processSlice gp fm fs c s s = (fs, c)"
  by (simp add: processSlice_def)

lemma processSlice_enriched:
  assumes "enriched gp fm fs0 s fs" "s \<le> e" "e \<le> length fs0"
  shows "enriched gp fm fs0 e (fst (processSlice gp fm fs c s e))"
  using assms(2,3)
proof (induction e)
  case 0
  with assms(1) show ?case by (simp add: processSlice_empty)
next
  case (Suc e)
  show ?case
  proof (cases "s = Suc e")
    case True
    with assms(1) show ?thesis by (simp add: processSlice_empty)
  next
    case False
    with Suc.prems have se: "s \<le> e" "e < length fs0" by simp_all
    obtain fs1 c1 where p: "processSlice gp fm fs c s e = (fs1, c1)" by (cases "processSlice gp fm fs c s e")
    with Suc.IH se have ih: "enriched gp fm fs0 e fs1" by simp
    obtain f' c' where ef: "enrichFeature gp fm c1 (fs1 ! e) = (f', c')"
      by (cases "enrichFeature gp fm c1 (fs1 ! e)")
    from ih se have "fs1 ! e = fs0 ! e" by (simp add: enriched_def)
    with ef have f': "f' = fst (enrichFeature gp fm c1 (fs0 ! e))" by simp
    have "fst (processSlice gp fm fs c s (Suc e)) = fs1[e := f']"
      using se p ef by (simp add: processSlice_Suc)
    moreover have "enriched gp fm fs0 (Suc e) (fs1[e := f'])"
      using ih se f' unfolding enriched_def
      by (auto simp: nth_list_update less_Suc_eq)
    ultimately show ?thesis by simp
  qed
qed

lemma processNext_unfold_more:
  assumes "processSlice gp fm features cache index (index + concurrency) = (fs1, c1)"
    and "index + concurrency < length features"
    and "processNext gp fm fs1 c1 (index + concurrency) = (fs', c', pubs)"
  shows "processNext gp fm features cache index = (fs', c', map color fs1 # pubs)"
proof -
  have m: "min (length features) (index + concurrency) = index + concurrency"
    using assms(2) by simp
  show ?thesis
    by (subst processNext.simps) (simp only: Let_def m assms prod.case if_True)
qed

lemma processNext_unfold_last:
  assumes "processSlice gp fm features cache index (length features) = (fs1, c1)"
    and "\<not> index + concurrency < length features"
  shows "processNext gp fm features cache index = (fs1, c1, [map color fs1])"
proof -
  have m: "min (length features) (index + concurrency) = length features"
    using assms(2) by simp
  show ?thesis
    by (subst processNext.simps) (simp only: Let_def m assms prod.case less_irrefl if_False)
qed


lemma enriched_length: "enriched gp fm fs0 k fs \<Longrightarrow> length fs = length fs0"
  by (simp add: enriched_def)

lemma processNext_enriched:
  assumes "enriched gp fm fs0 index features" "index \<le> length features"
  shows "enriched gp fm fs0 (length fs0) (fst (processNext gp fm features cache index))"
  using assms
proof (induction gp fm features cache index rule: processNext.induct)
  case (1 gp fm features cache index)
  from "1.prems"(1) have len: "length features = length fs0" by (rule enriched_length)
  show ?case
  proof (cases "index + concurrency < length features")
    case True
    then have m: "min (length features) (index + concurrency) = index + concurrency" by simp
    obtain fs1 c1 where p: "processSlice gp fm features cache index (index + concurrency) = (fs1, c1)"
      by (cases "processSlice gp fm features cache index (index + concurrency)")
    have e1: "enriched gp fm fs0 (index + concurrency) fs1"
      using processSlice_enriched [OF "1.prems"(1), of "index + concurrency" cache] p True len by simp
    then have l1: "index + concurrency \<le> length fs1"
      using True len by (simp add: enriched_length)
    obtain fs' c' pubs where q: "processNext gp fm fs1 c1 (index + concurrency) = (fs', c', pubs)"
      by (cases "processNext gp fm fs1 c1 (index + concurrency)")
    have "enriched gp fm fs0 (length fs0) (fst (processNext gp fm fs1 c1 (index + concurrency)))"
      using "1.IH" [OF refl m [symmetric] p [symmetric]] True e1 l1 by simp
    then show ?thesis
      using processNext_unfold_more [OF p True q] q by simp
  next
    case False
    obtain fs1 c1 where p: "processSlice gp fm features cache index (length features) = (fs1, c1)"
      by (cases "processSlice gp fm features cache index (length features)")
    have "enriched gp fm fs0 (length features) fs1"
      using processSlice_enriched [OF "1.prems"(1), of "length features" cache] p "1.prems"(2) len
      by simp
    then show ?thesis
      using processNext_unfold_last [OF p False] len by simp
  qed
qed

subsection \<open>Colours of the features\<close>

lemma tableColor_globe_nonempty: "tableColor GLOBE_CONTINENT_BASE_COLORS key \<noteq> []"
proof -
  have v: "map_of GLOBE_CONTINENT_BASE_COLORS k = Some c \<Longrightarrow> c \<noteq> []" for k c
    by (auto simp: GLOBE_CONTINENT_BASE_COLORS_def split: if_splits)
  have d: "map_of GLOBE_CONTINENT_BASE_COLORS ''default'' = Some ''#B1C4BB''"
    by (simp add: GLOBE_CONTINENT_BASE_COLORS_def)
  show ?thesis
    using v by (auto simp: tableColor_def jsOr_def d split: option.splits)
qed

lemma initFeature_colors:
  "color (initFeature i f) = baseColor (initFeature i f) \<and> baseColor (initFeature i f) \<noteq> []"
  by (simp add: initFeature_def getBaseColorForFeature_def tableColor_globe_nonempty
      geo_feature.extend_def Let_def)

lemma initFeatures_nth:
  "length (initFeatures gs) = length gs"
  "i < length gs \<Longrightarrow> initFeatures gs ! i = initFeature i (gs ! i)"
  by (simp_all add: initFeatures_def nth_enumerate_eq)

lemma enrichFeature_color:
  assumes "f' = fst (enrichFeature gp fm c f)"
  shows "baseColor f' = baseColor f \<and>
         (color f' = color f \<or> color f' = baseColor f \<or>
          (\<exists>ctry pal c1. gp c ctry \<lparr> opt_baseColor = Some (baseColor f), opt_fallbackAccent = None \<rparr>
               = (Inr pal, c1) \<and> color f' = accent pal \<and> accent pal \<noteq> []))"
  using assms
  by (auto simp: enrichFeature_def Let_def split: option.splits if_splits prod.splits sum.splits)

lemma enriched_start: "enriched gp fm fs 0 fs"
  by (simp add: enriched_def)

lemma processSlice_length:
  "length (fst (processSlice gp fm fs c s e)) = length fs"
proof (induction e)
  case 0
  show ?case by (simp add: processSlice_def)
next
  case (Suc e)
  show ?case
  proof (cases "s \<le> e")
    case True
    then show ?thesis
      using Suc by (auto simp: processSlice_Suc split: prod.splits)
  next
    case False
    then have "[s..<Suc e] = []" by simp
    then show ?thesis by (simp add: processSlice_def)
  qed
qed

lemma slices_step:
  assumes "k + 6 < n"
  shows "max 1 ((n - k + 5) div 6) = Suc (max 1 ((n - (k + 6) + 5) div 6))"
proof -
  have "n - k + 5 = (n - (k + 6) + 5) + (6::nat)" using assms by simp
  then have a: "(n - k + 5) div 6 = Suc ((n - (k + 6) + 5) div 6)" by (simp only: div_add_self2)
  have "6 \<le> n - (k + 6) + 5" using assms by simp
  then have b: "1 \<le> (n - (k + 6) + 5) div 6" by (simp add: Suc_le_eq div_greater_zero_iff)
  show ?thesis unfolding a using b by (simp only: max_def) simp
qed

lemma slices_last:
  assumes "\<not> k + 6 < n"
  shows "max 1 ((n - k + 5) div 6) = (1::nat)"
proof -
  have "n - k + 5 < 12" using assms by simp
  then have "(n - k + 5) div 6 < 2" by (simp only: div_less_iff_less_mult)
  moreover have "d < 2 \<Longrightarrow> max 1 d = 1" for d :: nat by (auto simp: max_def)
  ultimately show ?thesis by blast
qed

lemma publish_count:
  "length (snd (snd (processNext gp fm features cache index)))
     = max 1 ((length features - index + 5) div 6)"
proof (induction gp fm features cache index rule: processNext.induct)
  case (1 gp fm features cache index)
  show ?case
  proof (cases "index + concurrency < length features")
    case True
    then have m: "min (length features) (index + concurrency) = index + concurrency" by simp
    obtain fs1 c1 where p: "processSlice gp fm features cache index (index + concurrency) = (fs1, c1)"
      by (cases "processSlice gp fm features cache index (index + concurrency)")
    have l1: "length fs1 = length features"
      using processSlice_length [of gp fm features cache index "index + concurrency"] p by simp
    obtain fs' c' pubs where q: "processNext gp fm fs1 c1 (index + concurrency) = (fs', c', pubs)"
      by (cases "processNext gp fm fs1 c1 (index + concurrency)")
    have "length pubs = max 1 ((length features - (index + 6) + 5) div 6)"
      using "1.IH" [OF refl m [symmetric] p [symmetric]] True q l1 by (simp add: concurrency_def)
    moreover have "index + 6 < length features" using True by (simp add: concurrency_def)
    ultimately show ?thesis
      using processNext_unfold_more [OF p True q] by (simp only: slices_step) simp
  next
    case False
    obtain fs1 c1 where p: "processSlice gp fm features cache index (length features) = (fs1, c1)"
      by (cases "processSlice gp fm features cache index (length features)")
    have "\<not> index + 6 < length features" using False by (simp add: concurrency_def)
    then show ?thesis
      using processNext_unfold_last [OF p False] by (simp only: slices_last) simp
  qed
qed

lemma publish_twice:
  assumes "length features = 12"
  shows "length (snd (snd (processNext gp fm features cache 0))) = 2"
proof -
  obtain fs1 c1 where p1: "processSlice gp fm features cache 0 (0 + concurrency) = (fs1, c1)"
    by (cases "processSlice gp fm features cache 0 (0 + concurrency)")
  have "length (fst (processSlice gp fm features cache 0 (0 + concurrency))) = length features"
    by (rule processSlice_length)
  with p1 assms have l1: "length fs1 = 12" by simp
  obtain fs2 c2 where p2: "processSlice gp fm fs1 c1 (0 + concurrency) (length fs1) = (fs2, c2)"
    by (cases "processSlice gp fm fs1 c1 (0 + concurrency) (length fs1)")
  have last: "processNext gp fm fs1 c1 (0 + concurrency) = (fs2, c2, [map color fs2])"
    using l1 by (intro processNext_unfold_last [OF p2]) (simp add: concurrency_def)
  have "processNext gp fm features cache 0 = (fs2, c2, [map color fs1, map color fs2])"
    using assms by (intro processNext_unfold_more [OF p1 _ last]) (simp add: concurrency_def)
  then show ?thesis by simp
qed

lemma enrich_outcome:
  assumes "enrich gp fm (initFeatures gs) cache = (fs', cache', pubs)"
  shows "length fs' = length gs \<and>
         (length gs = 12 \<longrightarrow> length pubs = 2) \<and>
         length pubs = max 1 ((length gs + 5) div 6) \<and>
         (\<forall>i < length gs.
            (\<exists>c. fs' ! i = fst (enrichFeature gp fm c (initFeatures gs ! i))) \<and>
            color (fs' ! i) \<noteq> [] \<and>
            baseColor (fs' ! i) = baseColor (initFeatures gs ! i) \<and>
            (color (fs' ! i) = baseColor (initFeatures gs ! i) \<or>
             (\<exists>c ctry pal c1.
                gp c ctry \<lparr> opt_baseColor = Some (baseColor (initFeatures gs ! i)),
                             opt_fallbackAccent = None \<rparr> = (Inr pal, c1) \<and>
                color (fs' ! i) = accent pal)))"
proof (intro conjI impI allI)
  have e: "enriched gp fm (initFeatures gs) (length (initFeatures gs)) fs'"
    using processNext_enriched [where gp = gp and fm = fm and ?fs0.0 = "initFeatures gs"
        and features = "initFeatures gs" and index = 0 and cache = cache, OF enriched_start] assms
    by (simp add: enrich_def)
  then show "length fs' = length gs"
    by (simp add: enriched_length initFeatures_nth(1))
  {
    assume "length gs = 12"
    then show "length pubs = 2"
      using publish_twice [where features = "initFeatures gs" and gp = gp and fm = fm
          and cache = cache] assms
      by (simp add: enrich_def initFeatures_nth(1))
  }
  show "length pubs = max 1 ((length gs + 5) div 6)"
    using publish_count [of gp fm "initFeatures gs" cache 0] assms
    by (simp add: enrich_def initFeatures_nth(1))
  fix i
  assume i: "i < length gs"
  with e obtain c where c: "fs' ! i = fst (enrichFeature gp fm c (initFeatures gs ! i))"
    by (auto simp: enriched_def initFeatures_nth(1))
  then show "\<exists>c. fs' ! i = fst (enrichFeature gp fm c (initFeatures gs ! i))" by blast
  have init: "color (initFeatures gs ! i) = baseColor (initFeatures gs ! i)"
      "baseColor (initFeatures gs ! i) \<noteq> []"
    using i initFeature_colors [of i "gs ! i"] by (simp_all add: initFeatures_nth(2))
  from enrichFeature_color [OF c] init
  show "color (fs' ! i) \<noteq> []" by auto
  from enrichFeature_color [OF c]
  show "baseColor (fs' ! i) = baseColor (initFeatures gs ! i)" by simp
  from enrichFeature_color [OF c] init
  show "color (fs' ! i) = baseColor (initFeatures gs ! i) \<or>
             (\<exists>c ctry pal c1.
                gp c ctry \<lparr> opt_baseColor = Some (baseColor (initFeatures gs ! i)),
                             opt_fallbackAccent = None \<rparr> = (Inr pal, c1) \<and>
                color (fs' ! i) = accent pal)"
    by auto
qed

text \<open>
  C1. Enrichment of the features as GlobeView initialises them, for any palette function,
  any flag lookup and any cache. The features stay as many. Twelve features are published
  exactly twice; in general there is one publication per slice of six, and one for no
  feature at all. Every feature ends as the outcome of its own unit of work, with its
  \<^verbatim>\<open>baseColor\<close> kept and a \<^verbatim>\<open>color\<close> that is not empty and is either its \<^verbatim>\<open>baseColor\<close> or the
  accent of a palette derived for it: a derivation that fails leaves the \<^verbatim>\<open>baseColor\<close> and
  stops nothing.
\<close>

theorem enrichment_colors_all_features:
  assumes "enrich gp fm (initFeatures gs) cache = (fs', cache', pubs)"
  shows "length fs' = length gs \<and>
         (length gs = 12 \<longrightarrow> length pubs = 2) \<and>
         length pubs = max 1 ((length gs + 5) div 6) \<and>
         (\<forall>i < length gs.
            (\<exists>c. fs' ! i = fst (enrichFeature gp fm c (initFeatures gs ! i))) \<and>
            color (fs' ! i) \<noteq> [] \<and>
            baseColor (fs' ! i) = baseColor (initFeatures gs ! i) \<and>
            (color (fs' ! i) = baseColor (initFeatures gs ! i) \<or>
             (\<exists>c ctry pal c1.
                gp c ctry \<lparr> opt_baseColor = Some (baseColor (initFeatures gs ! i)),
                             opt_fallbackAccent = None \<rparr> = (Inr pal, c1) \<and>
                color (fs' ! i) = accent pal)))"
  using assms by (rule enrich_outcome)

theorem enrichment_colors_all_features_witness:
  "length (replicate 12 \<lparr> feature_id = Some ''FRA'', ISO_A3 = None, ADM0_A3 = None, iso_a3 = None,
       CONTINENT = Some ''Europe'', continent = None, REGION_UN = None, region_un = None,
       REGION = None, region_prop = None \<rparr>) = 12 \<and>
   length (snd (snd (enrich (getCountryPalette (\<lambda>u. Inl ImageLoadError))
       [''FRA'' \<mapsto> \<lparr> region = Some ''Europe'', flag = None, flagUrl = None,
                        flags_svg = Some ''fr.svg'', flags_png = None \<rparr>]
       (initFeatures (replicate 12 \<lparr> feature_id = Some ''FRA'', ISO_A3 = None, ADM0_A3 = None,
          iso_a3 = None, CONTINENT = Some ''Europe'', continent = None, REGION_UN = None,
          region_un = None, REGION = None, region_prop = None \<rparr>)) Map.empty))) = 2 \<and>
   color (fst (enrich (getCountryPalette (\<lambda>u. Inl ImageLoadError))
       [''FRA'' \<mapsto> \<lparr> region = Some ''Europe'', flag = None, flagUrl = None,
                        flags_svg = Some ''fr.svg'', flags_png = None \<rparr>]
       (initFeatures (replicate 12 \<lparr> feature_id = Some ''FRA'', ISO_A3 = None, ADM0_A3 = None,
          iso_a3 = None, CONTINENT = Some ''Europe'', continent = None, REGION_UN = None,
          region_un = None, REGION = None, region_prop = None \<rparr>)) Map.empty) ! 11) \<noteq> []"
proof -
  let ?g = "\<lparr> feature_id = Some ''FRA'', ISO_A3 = None, ADM0_A3 = None, iso_a3 = None,
       CONTINENT = Some ''Europe'', continent = None, REGION_UN = None, region_un = None,
       REGION = None, region_prop = None \<rparr>"
  let ?fm = "[''FRA'' \<mapsto> \<lparr> region = Some ''Europe'', flag = None, flagUrl = None,
                        flags_svg = Some ''fr.svg'', flags_png = None \<rparr>]"
  let ?E = "enrich (getCountryPalette (\<lambda>u. Inl ImageLoadError)) ?fm
       (initFeatures (replicate 12 ?g)) Map.empty"
  have l: "length (replicate 12 ?g) = 12" by simp
  have p: "?E = (fst ?E, fst (snd ?E), snd (snd ?E))" by simp
  from enrichment_colors_all_features [OF p] l
  have "length (snd (snd ?E)) = 2" and "color (fst ?E ! 11) \<noteq> []"
    by simp_all
  with l show ?thesis by blast
qed


text \<open>A unit whose flag does not load takes the fallback accent; when every palette
  derivation fails, every feature keeps its base colour.\<close>

lemma enrichFeature_fallback_accent:
  "color (fst (enrichFeature (getCountryPalette (\<lambda>u. Inl ImageLoadError))
       [''FRA'' \<mapsto> \<lparr> region = Some ''Europe'', flag = None, flagUrl = None,
                        flags_svg = Some ''fr.svg'', flags_png = None \<rparr>] Map.empty
       (initFeature 0 \<lparr> feature_id = Some ''fra'', ISO_A3 = None, ADM0_A3 = None, iso_a3 = None,
       CONTINENT = Some ''Europe'', continent = None, REGION_UN = None, region_un = None,
       REGION = None, region_prop = None \<rparr>))) = ''#C77442''"
proof -
  have u: "toUpperCase ''fra'' = ''FRA''" by code_simp
  show ?thesis
    by (simp add: enrichFeature_def initFeature_def geo_feature.extend_def jsOr_def u
        getCountryPalette_def extractFlagColors_def extractTry_def fallbackResult_def Let_def
        mix_strings_not_raise split: sum.splits)
qed

lemma enrichment_survives_failure:
  assumes "\<And>c ctry opts. fst (gp c ctry opts) = Inl TypeError"
  shows "map color (fst (enrich gp fm (initFeatures gs) cache)) = map baseColor (initFeatures gs)"
proof -
  let ?E = "enrich gp fm (initFeatures gs) cache"
  have p: "?E = (fst ?E, fst (snd ?E), snd (snd ?E))" by simp
  note t = enrich_outcome [OF p]
  have "color (fst ?E ! i) = baseColor (initFeatures gs ! i)" if "i < length gs" for i
  proof -
    from t that have "color (fst ?E ! i) = baseColor (initFeatures gs ! i) \<or>
             (\<exists>c ctry pal c1.
                gp c ctry \<lparr> opt_baseColor = Some (baseColor (initFeatures gs ! i)),
                             opt_fallbackAccent = None \<rparr> = (Inr pal, c1) \<and>
                color (fst ?E ! i) = accent pal)" by blast
    moreover have "gp c ctry opts \<noteq> (Inr pal, c1)" for c ctry opts pal c1
      using assms [of c ctry opts] by auto
    ultimately show ?thesis by blast
  qed
  moreover have "length (fst ?E) = length (initFeatures gs)"
    using t by (simp add: initFeatures_nth(1))
  ultimately show ?thesis
    by (auto simp: list_eq_iff_nth_eq initFeatures_nth(1))
qed

section \<open>Properties of the name matching\<close>

subsection \<open>The override table\<close>

lemma COUNTRY_NAME_MAP_key_nonempty: "map_of COUNTRY_NAME_MAP q = Some m \<Longrightarrow> q \<noteq> []"
  by (auto simp: COUNTRY_NAME_MAP_def)

text \<open>
  C2. When the query is a key of the override table and the reference set has a record
  whose common or official name is the mapped value, \<^const>\<open>matchCountryName\<close> returns the
  first such record: the override is tried first and its hit is returned, whatever the
  later strategies would find.
\<close>

theorem override_match_first:
  assumes "map_of COUNTRY_NAME_MAP q = Some m"
    and "\<exists>c \<in> set cs. name_common c = m \<or> name_official c = m"
  shows "matchCountryName q cs = find (\<lambda>c. name_common c = m \<or> name_official c = m) cs \<and>
         (\<exists>c. matchCountryName q cs = Some c \<and> c \<in> set cs \<and> (name_common c = m \<or> name_official c = m))"
proof -
  from assms(2) obtain c where
    f: "find (\<lambda>c. name_common c = m \<or> name_official c = m) cs = Some c"
    by (cases "find (\<lambda>c. name_common c = m \<or> name_official c = m) cs") (auto simp: find_None_iff)
  then have c: "c \<in> set cs" "name_common c = m \<or> name_official c = m"
    by (auto simp: find_Some_iff)
  from assms(2) have ne: "cs \<noteq> []" by auto
  have "matchCountryName q cs = Some c"
    using COUNTRY_NAME_MAP_key_nonempty [OF assms(1)] ne assms(1) f
    by (simp add: matchCountryName_def Let_def)
  with f c show ?thesis by simp
qed

theorem override_match_first_witness:
  "matchCountryName ''USA''
     [\<lparr> name_common = ''Mexico'', name_official = ''United Mexican States'', altSpellings = None, cca3 = ''MEX'' \<rparr>,
      \<lparr> name_common = ''United States of America'', name_official = ''United States of America'',
        altSpellings = None, cca3 = ''USA'' \<rparr>]
   = Some \<lparr> name_common = ''United States of America'', name_official = ''United States of America'',
        altSpellings = None, cca3 = ''USA'' \<rparr> \<and>
   matchCountryName ''Czech Republic''
     [\<lparr> name_common = ''Czechia'', name_official = ''Czech Republic'', altSpellings = None, cca3 = ''CZE'' \<rparr>]
   = Some \<lparr> name_common = ''Czechia'', name_official = ''Czech Republic'', altSpellings = None, cca3 = ''CZE'' \<rparr>"
proof -
  have k1: "map_of COUNTRY_NAME_MAP ''USA'' = Some ''United States of America''"
    by (simp add: COUNTRY_NAME_MAP_def)
  have k2: "map_of COUNTRY_NAME_MAP ''Czech Republic'' = Some ''Czechia''"
    by (simp add: COUNTRY_NAME_MAP_def)
  show ?thesis
    using override_match_first [OF k1, of "[\<lparr> name_common = ''Mexico'', name_official = ''United Mexican States'', altSpellings = None, cca3 = ''MEX'' \<rparr>,
      \<lparr> name_common = ''United States of America'', name_official = ''United States of America'',
        altSpellings = None, cca3 = ''USA'' \<rparr>]"]
      override_match_first [OF k2, of "[\<lparr> name_common = ''Czechia'', name_official = ''Czech Republic'', altSpellings = None, cca3 = ''CZE'' \<rparr>]"]
    by simp
qed

text \<open>The same reference set has no match for a query that differs from the key only in
  case: the exact, normalized, partial and alternate-spelling strategies all ignore case,
  so without the override ``USA'' would not be found there.\<close>

lemma no_match_without_override:
  "matchCountryName ''Usa''
     [\<lparr> name_common = ''Mexico'', name_official = ''United Mexican States'', altSpellings = None, cca3 = ''MEX'' \<rparr>,
      \<lparr> name_common = ''United States of America'', name_official = ''United States of America'',
        altSpellings = None, cca3 = ''USA'' \<rparr>] = None"
  by code_simp

subsection \<open>Normalized names\<close>

lemma normalizeName_absent: "normalizeName None = [] \<and> normalizeName (Some []) = []"
  by (simp add: normalizeName_def)

lemma space_isWhiteSpace: "isWhiteSpace CHR '' ''"
  by (simp add: isWhiteSpace_def)

lemma collapseSpaces_chars:
  "set (collapseSpaces xs) \<subseteq> insert CHR '' '' {c \<in> set xs. \<not> isWhiteSpace c}"
proof (induction xs rule: collapseSpaces.induct)
  case 1
  show ?case by simp
next
  case (2 c cs)
  show ?case
  proof (cases "isWhiteSpace c")
    case True
    with 2 have "set (collapseSpaces (dropWhile isWhiteSpace cs))
        \<subseteq> insert CHR '' '' {c \<in> set (dropWhile isWhiteSpace cs). \<not> isWhiteSpace c}" by simp
    moreover have "set (dropWhile isWhiteSpace cs) \<subseteq> set cs" by (auto dest: set_dropWhileD)
    ultimately show ?thesis using True by auto
  next
    case False
    with 2 show ?thesis by auto
  qed
qed

lemma collapseSpaces_head:
  "collapseSpaces (dropWhile isWhiteSpace cs) = d # ds \<Longrightarrow> \<not> isWhiteSpace d"
proof -
  assume a: "collapseSpaces (dropWhile isWhiteSpace cs) = d # ds"
  have ne: "dropWhile isWhiteSpace cs \<noteq> []"
  proof
    assume "dropWhile isWhiteSpace cs = []"
    with a show False by simp
  qed
  then have h: "\<not> isWhiteSpace (hd (dropWhile isWhiteSpace cs))" by (rule hd_dropWhile)
  from ne obtain e es where e: "dropWhile isWhiteSpace cs = e # es" by (cases "dropWhile isWhiteSpace cs") auto
  with h a show ?thesis by auto
qed

lemma collapseSpaces_single:
  "\<not> includesStr (collapseSpaces xs) [CHR '' '', CHR '' '']"
proof (induction xs rule: collapseSpaces.induct)
  case 1
  show ?case by simp
next
  case (2 c cs)
  show ?case
  proof (cases "isWhiteSpace c")
    case True
    with 2 have ih: "\<not> includesStr (collapseSpaces (dropWhile isWhiteSpace cs)) [CHR '' '', CHR '' '']"
      by simp
    have "\<not> startsWith (collapseSpaces (dropWhile isWhiteSpace cs)) [CHR '' '']"
    proof (cases "collapseSpaces (dropWhile isWhiteSpace cs)")
      case Nil
      then show ?thesis by simp
    next
      case (Cons d ds)
      then have "\<not> isWhiteSpace d" by (rule collapseSpaces_head)
      then have "d \<noteq> CHR '' ''" using space_isWhiteSpace by auto
      with Cons show ?thesis by simp
    qed
    with ih True show ?thesis by simp
  next
    case False
    then have "c \<noteq> CHR '' ''" using space_isWhiteSpace by auto
    with 2 False show ?thesis by simp
  qed
qed

lemma toLowerChar_not_capital:
  "isWordChar (toLowerChar c) \<Longrightarrow> \<not> (65 \<le> (of_char (toLowerChar c) :: nat) \<and> (of_char (toLowerChar c) :: nat) \<le> 90)"
  by (auto simp: toLowerChar_def isWordChar_def Let_def split: if_splits)

text \<open>What does hold of every result: its characters are spaces and word characters that
  are not capital letters, and no two spaces stand side by side.\<close>

lemma normalizeName_shape:
  "(\<forall>c \<in> set (normalizeName name). c = CHR '' '' \<or>
       (isWordChar c \<and> \<not> (65 \<le> (of_char c :: nat) \<and> (of_char c :: nat) \<le> 90))) \<and>
   \<not> includesStr (normalizeName name) [CHR '' '', CHR '' '']"
proof (cases name)
  case None
  then show ?thesis by (simp add: normalizeName_def)
next
  case (Some s)
  let ?t = "filter (\<lambda>c. isWordChar c \<or> isWhiteSpace c) (trim (toLowerCase s))"
  have "set (trim (toLowerCase s)) \<subseteq> toLowerChar ` set s"
    unfolding trim_def toLowerCase_def by (auto dest!: set_dropWhileD)
  then have "{c \<in> set ?t. \<not> isWhiteSpace c} \<subseteq> {c \<in> toLowerChar ` set s. isWordChar c}"
    by auto
  with collapseSpaces_chars [of ?t]
  have "set (collapseSpaces ?t) \<subseteq> insert CHR '' '' {c \<in> toLowerChar ` set s. isWordChar c}"
    by blast
  then have "\<forall>c \<in> set (collapseSpaces ?t). c = CHR '' '' \<or>
       (isWordChar c \<and> \<not> (65 \<le> (of_char c :: nat) \<and> (of_char c :: nat) \<le> 90))"
    using toLowerChar_not_capital by blast
  then show ?thesis
    using Some collapseSpaces_single [of ?t] by (simp add: normalizeName_def)
qed

text \<open>
  C8 at two names. \<^verbatim>\<open>normalizeName\<close> trims before it removes the special characters, so
  white space that stood next to a removed character at either end stays: the result of
  \<^verbatim>\<open>"Korea -"\<close> ends with a space and the result of \<^verbatim>\<open>"! a"\<close> begins with one.
\<close>

theorem normalizeName_outer_space_left:
  "normalizeName (Some ''Korea -'') = ''korea '' \<and> normalizeName (Some ''! a'') = '' a''"
  by code_simp

section \<open>Properties of the cached reference set\<close>

subsection \<open>Failure of every attempt\<close>

lemma resumeCall_failure:
  assumes "isFailure resp"
  shows "resumeCall st (Awaiting n a) resp =
    (if a + 1 < maxRetries then (Awaiting n (a + 1), st\<lparr> fetchCount := fetchCount st + 1 \<rparr>)
     else (Returned (Inr None), st))"
  using assms by (cases resp) (simp_all add: resumeCall_def outerCatch_def isFailure_def)

lemma cacheFresh_fetchCount [simp]: "cacheFresh (st\<lparr> fetchCount := k \<rparr>) t = cacheFresh st t"
  by (simp add: cacheFresh_def)

lemma fetch_total_failure:
  assumes "\<not> cacheFresh st now" "isFailure r1" "isFailure r2" "isFailure r3"
  shows "fetchCountryData st countryName now [r1, r2, r3]
           = (Some (Inr None), st\<lparr> fetchCount := fetchCount st + 3 \<rparr>)"
  using assms
  by (simp add: fetchCountryData_def startCall_def resumeCall_failure maxRetries_def)

text \<open>
  C4, as the code has it. When no fresh set is cached and all three requests fail, the
  call resolves to \<^verbatim>\<open>null\<close>: the outer \<^verbatim>\<open>catch\<close> keeps the error from the caller, with or
  without an older set in the cache. The cached set and its timestamp are what they were.
\<close>

theorem total_failure_returns_null:
  assumes "\<not> cacheFresh st now" "isFailure r1" "isFailure r2" "isFailure r3"
    and "fetchCountryData st countryName now [r1, r2, r3] = (res, st')"
  shows "res = Some (Inr None) \<and> allCountriesCache st' = allCountriesCache st \<and>
         cacheTimestamp st' = cacheTimestamp st \<and> fetchCount st' = fetchCount st + 3"
  using fetch_total_failure [OF assms(1-4), of countryName] assms(5) by auto

theorem total_failure_returns_null_witness:
  "fetchCountryData \<lparr> allCountriesCache = Some [], cacheTimestamp = Some 1000, fetchCount = 1 \<rparr>
      ''France'' 1801000 [FetchRejected, NotOk 503, BadJson]
    = (Some (Inr None), \<lparr> allCountriesCache = Some [], cacheTimestamp = Some 1000, fetchCount = 4 \<rparr>)"
proof -
  let ?st = "\<lparr> allCountriesCache = Some [], cacheTimestamp = Some 1000, fetchCount = 1 \<rparr>"
  let ?F = "fetchCountryData ?st ''France'' 1801000 [FetchRejected, NotOk 503, BadJson]"
  have nf: "\<not> cacheFresh ?st 1801000"
    by (simp add: cacheFresh_def CACHE_DURATION_def)
  have f: "isFailure FetchRejected" "isFailure (NotOk 503)" "isFailure BadJson"
    by (simp_all add: isFailure_def)
  have p: "?F = (fst ?F, snd ?F)" by simp
  from total_failure_returns_null [OF nf f p]
  have "fst ?F = Some (Inr None)" "allCountriesCache (snd ?F) = Some []"
    "cacheTimestamp (snd ?F) = Some 1000" "fetchCount (snd ?F) = 4"
    by simp_all
  then have "snd ?F = \<lparr> allCountriesCache = Some [], cacheTimestamp = Some 1000, fetchCount = 4 \<rparr>"
    by (cases "snd ?F") simp
  with \<open>fst ?F = Some (Inr None)\<close> show ?thesis
    by (metis prod.collapse)
qed

text \<open>C4 as stated fails: with an empty cache and three rejected requests the caller
  receives \<^verbatim>\<open>null\<close>, as for a name that is not found, and no error.\<close>

theorem failure_not_propagated:
  "fetchCountryData \<lparr> allCountriesCache = None, cacheTimestamp = None, fetchCount = 0 \<rparr>
      ''France'' 1000 [FetchRejected, FetchRejected, FetchRejected]
     = (Some (Inr None), \<lparr> allCountriesCache = None, cacheTimestamp = None, fetchCount = 3 \<rparr>) \<and>
   \<not> (\<exists>err. fst (fetchCountryData \<lparr> allCountriesCache = None, cacheTimestamp = None, fetchCount = 0 \<rparr>
      ''France'' 1000 [FetchRejected, FetchRejected, FetchRejected]) = Some (Inl err))"
proof -
  have "\<not> cacheFresh \<lparr> allCountriesCache = None, cacheTimestamp = None, fetchCount = 0 \<rparr> 1000"
    by (simp add: cacheFresh_def)
  then have "fetchCountryData \<lparr> allCountriesCache = None, cacheTimestamp = None, fetchCount = 0 \<rparr>
      ''France'' 1000 [FetchRejected, FetchRejected, FetchRejected]
     = (Some (Inr None), \<lparr> allCountriesCache = None, cacheTimestamp = None, fetchCount = 3 \<rparr>)"
    using fetch_total_failure [of "\<lparr> allCountriesCache = None, cacheTimestamp = None, fetchCount = 0 \<rparr>"
        1000 FetchRejected FetchRejected FetchRejected "''France''"]
    by (simp add: isFailure_def)
  then show ?thesis by simp
qed

subsection \<open>Overlapping calls\<close>

lemma startCalls_gen:
  assumes "\<forall>(n, t) \<in> set calls. \<not> cacheFresh st t"
  shows "foldl (\<lambda>(cls, s) (n, now). case startCall s n now of (cl, s') \<Rightarrow> (cls @ [cl], s')) (acc, st) calls
     = (acc @ map (\<lambda>(n, t). Awaiting n 0) calls, st\<lparr> fetchCount := fetchCount st + length calls \<rparr>)"
  using assms
proof (induction calls arbitrary: acc st)
  case Nil
  show ?case by simp
next
  case (Cons c calls)
  obtain n t where c: "c = (n, t)" by (cases c)
  from Cons.prems c have nf: "\<not> cacheFresh st t" by simp
  have rest: "\<forall>(n, t) \<in> set calls. \<not> cacheFresh (st\<lparr> fetchCount := fetchCount st + 1 \<rparr>) t"
    using Cons.prems by auto
  show ?case
    using nf Cons.IH [OF rest, of "acc @ [Awaiting n 0]"]
    by (simp add: c startCall_def)
qed

text \<open>
  C3, as the code has it. Calls that start while no fresh set is cached each make a
  request of their own, whether or not others are waiting: \<open>k\<close> overlapping calls make
  \<open>k\<close> requests. A call that starts while a fresh set is cached makes none.
\<close>

theorem overlapping_calls_fetch_each:
  "((\<forall>(n, t) \<in> set calls. \<not> cacheFresh st t) \<longrightarrow>
      startCalls st calls
        = (map (\<lambda>(n, t). Awaiting n 0) calls, st\<lparr> fetchCount := fetchCount st + length calls \<rparr>)) \<and>
   (cacheFresh st now \<longrightarrow>
      (\<exists>v. startCall st countryName now = (Returned v, st)))"
  using startCalls_gen [of calls st "[]"]
  by (auto simp: startCalls_def startCall_def)

theorem overlapping_calls_fetch_each_witness:
  "startCalls \<lparr> allCountriesCache = None, cacheTimestamp = None, fetchCount = 0 \<rparr>
      [(''France'', 1000), (''Spain'', 1001), (''Peru'', 1002)]
     = ([Awaiting ''France'' 0, Awaiting ''Spain'' 0, Awaiting ''Peru'' 0],
        \<lparr> allCountriesCache = None, cacheTimestamp = None, fetchCount = 3 \<rparr>) \<and>
   startCall \<lparr> allCountriesCache = Some [], cacheTimestamp = Some 1000, fetchCount = 1 \<rparr> ''France'' 2000
     = (Returned (Inr None), \<lparr> allCountriesCache = Some [], cacheTimestamp = Some 1000, fetchCount = 1 \<rparr>)"
proof -
  let ?st = "\<lparr> allCountriesCache = None, cacheTimestamp = None, fetchCount = 0 \<rparr>"
  let ?st1 = "\<lparr> allCountriesCache = Some [], cacheTimestamp = Some 1000, fetchCount = 1 \<rparr>"
  have nf: "\<forall>(n, t) \<in> set [(''France'', 1000), (''Spain'', 1001), (''Peru'', 1002)]. \<not> cacheFresh ?st t"
    by (simp add: cacheFresh_def)
  have fr: "cacheFresh ?st1 2000"
    by (simp add: cacheFresh_def CACHE_DURATION_def)
  have m: "matchCountryName ''France'' [] = None"
    by (simp add: matchCountryName_def)
  from overlapping_calls_fetch_each [of "[(''France'', 1000), (''Spain'', 1001), (''Peru'', 1002)]" ?st
      2000 "''France''"] nf
  have a: "startCalls ?st [(''France'', 1000), (''Spain'', 1001), (''Peru'', 1002)]
     = ([Awaiting ''France'' 0, Awaiting ''Spain'' 0, Awaiting ''Peru'' 0],
        \<lparr> allCountriesCache = None, cacheTimestamp = None, fetchCount = 3 \<rparr>)"
    by simp
  have "startCall ?st1 ''France'' 2000 = (Returned (Inr None), ?st1)"
    using fr m by (simp add: startCall_def outerCatch_def)
  with a show ?thesis by simp
qed

text \<open>C3 as stated fails: two calls that overlap on an empty cache make two requests,
  not one.\<close>

theorem overlapping_calls_two_fetches:
  "startCalls \<lparr> allCountriesCache = None, cacheTimestamp = None, fetchCount = 0 \<rparr>
      [(''France'', 1000), (''Spain'', 1001)]
     = ([Awaiting ''France'' 0, Awaiting ''Spain'' 0],
        \<lparr> allCountriesCache = None, cacheTimestamp = None, fetchCount = 2 \<rparr>) \<and>
   fetchCount (snd (startCalls \<lparr> allCountriesCache = None, cacheTimestamp = None, fetchCount = 0 \<rparr>
      [(''France'', 1000), (''Spain'', 1001)])) \<noteq> 1"
  by (simp add: startCalls_def startCall_def cacheFresh_def)

end
